theory Spec2Isabelle
  imports Main "HOL-Library.Sublist"
begin

section \<open>Protocol data\<close>

text \<open>
  The protocol types of \<^verbatim>\<open>protocol.mdx\<close>. An optional property of a TypeScript
  interface is an \<open>option\<close>; \<open>None\<close> stands for \<^verbatim>\<open>undefined\<close>. Strings are
  lists of characters. Provider settings are opaque to the client: they are carried as
  the text of the settings object and only passed on.
\<close>

type_synonym ProviderSettings = string

record Selector =
  path :: "string option"
  contentContains :: "string option"

record CapabilitiesResult =
  selector :: "Selector list option"

text \<open>
  \<^verbatim>\<open>ItemsParams\<close> and \<^verbatim>\<open>AnnotationsParams\<close> have the same two fields. The content
  is optional here because the selector matcher is specified for a resource descriptor
  whose content may be absent.
\<close>

record ResourceParams =
  uri :: string
  content :: "string option"

record Item =
  title :: string
  url :: "string option"
  hover :: "string option"
  ai :: "string option"

record Position =
  line :: nat
  character :: nat

record Annotation =
  ann_uri :: string
  range :: "(Position \<times> Position) option"
  item :: Item

section \<open>JSON text of the values the client serialises\<close>

text \<open>
  \<^verbatim>\<open>JSON.stringify\<close> on the objects the client passes to it: cache keys, capability
  results and resource URIs. A string is quoted as ECMA-262 \<^verbatim>\<open>QuoteJSONString\<close>
  does: the quotation mark and the backslash are escaped, the control characters below
  0x20 are written with their short escape or as \<^verbatim>\<open>\u00XX\<close>. A property whose
  value is \<^verbatim>\<open>undefined\<close> is left out. Properties are written in the object's own
  enumeration order, which the association lists below keep.
\<close>

definition hexDigit :: "nat \<Rightarrow> char" where
  "hexDigit n = (''0123456789abcdef'') ! (n mod 16)"

definition quoteChar :: "char \<Rightarrow> string" where
  "quoteChar c =
     (if c = CHR 0x22 then [CHR 0x5C, CHR 0x22]
      else if c = CHR 0x5C then [CHR 0x5C, CHR 0x5C]
      else if c = CHR 0x08 then [CHR 0x5C, CHR ''b'']
      else if c = CHR 0x09 then [CHR 0x5C, CHR ''t'']
      else if c = CHR 0x0A then [CHR 0x5C, CHR ''n'']
      else if c = CHR 0x0C then [CHR 0x5C, CHR ''f'']
      else if c = CHR 0x0D then [CHR 0x5C, CHR ''r'']
      else if (of_char c :: nat) < 32
        then [CHR 0x5C, CHR ''u'', CHR ''0'', CHR ''0'',
              hexDigit (of_char c div 16), hexDigit (of_char c)]
      else [c])"

definition quoteJSONString :: "string \<Rightarrow> string" where
  "quoteJSONString s = [CHR 0x22] @ concat (map quoteChar s) @ [CHR 0x22]"

fun joinComma :: "string list \<Rightarrow> string" where
  "joinComma [] = []"
| "joinComma [x] = x"
| "joinComma (x # y # ys) = x @ '','' @ joinComma (y # ys)"

definition jsonProperty :: "string \<Rightarrow> string \<Rightarrow> string" where
  "jsonProperty name text = quoteJSONString name @ '':'' @ text"

definition jsonOptional :: "string \<Rightarrow> ('a \<Rightarrow> string) \<Rightarrow> 'a option \<Rightarrow> string list" where
  "jsonOptional name render v =
     (case v of None \<Rightarrow> [] | Some x \<Rightarrow> [jsonProperty name (render x)])"

definition jsonObject :: "string list \<Rightarrow> string" where
  "jsonObject props = ''{'' @ joinComma props @ ''}''"

definition jsonArray :: "string list \<Rightarrow> string" where
  "jsonArray elems = ''['' @ joinComma elems @ '']''"

definition jsonSelector :: "Selector \<Rightarrow> string" where
  "jsonSelector s =
     jsonObject (jsonOptional ''path'' quoteJSONString (path s) @
                 jsonOptional ''contentContains'' quoteJSONString (contentContains s))"

definition jsonCapabilities :: "CapabilitiesResult \<Rightarrow> string" where
  "jsonCapabilities caps =
     jsonObject (jsonOptional ''selector'' (\<lambda>sels. jsonArray (map jsonSelector sels))
                   (selector caps))"

section \<open>Selector matcher\<close>

text \<open>
  The module \<^verbatim>\<open>./selector\<close> that exports \<^verbatim>\<open>matchSelectors\<close> is imported by
  \<^verbatim>\<open>createProviderClient.ts\<close> but is not among the sources. The glob primitive is
  outside the specified core; it is the parameter \<open>globMatch pattern uri\<close>.
\<close>

type_synonym glob = "string \<Rightarrow> string \<Rightarrow> bool"

text \<open>
  Modelled from the spec: the conditions of one selector, which \<^verbatim>\<open>./selector\<close>
  would test. By section 4.1 of the specification and the documentation of
  \<^verbatim>\<open>Selector\<close> in \<^verbatim>\<open>protocol.mdx\<close>, a selector is satisfied when each condition
  it carries holds: the \<^verbatim>\<open>path\<close> glob on the resource's URI, and
  \<^verbatim>\<open>contentContains\<close> as a literal substring of the resource's content, which
  fails when there is no content.
\<close>

definition matchPath :: "glob \<Rightarrow> string option \<Rightarrow> string \<Rightarrow> bool" where
  "matchPath globMatch p u = (case p of None \<Rightarrow> True | Some g \<Rightarrow> globMatch g u)"

definition matchContent :: "string option \<Rightarrow> string option \<Rightarrow> bool" where
  "matchContent lit c =
     (case lit of
        None \<Rightarrow> True
      | Some needle \<Rightarrow> (case c of None \<Rightarrow> False | Some text \<Rightarrow> sublist needle text))"

definition matchSelector :: "glob \<Rightarrow> Selector \<Rightarrow> ResourceParams \<Rightarrow> bool" where
  "matchSelector globMatch s r =
     (matchPath globMatch (path s) (uri r) \<and> matchContent (contentContains s) (content r))"

text \<open>
  Modelled from the spec: \<^verbatim>\<open>matchSelectors\<close> of \<^verbatim>\<open>./selector\<close>. By section 4.1
  of the specification and the documentation of \<^verbatim>\<open>CapabilitiesResult\<close> in
  \<^verbatim>\<open>protocol.mdx\<close>, an undefined selector list accepts every resource, an empty one
  accepts none, and otherwise every selector of the list has to be satisfied.
\<close>

fun matchSelectors :: "glob \<Rightarrow> Selector list option \<Rightarrow> ResourceParams \<Rightarrow> bool" where
  "matchSelectors globMatch None r = True"
| "matchSelectors globMatch (Some []) r = False"
| "matchSelectors globMatch (Some (s # ss)) r =
     list_all (\<lambda>sel. matchSelector globMatch sel r) (s # ss)"

section \<open>Provider client\<close>

text \<open>
  \<^verbatim>\<open>createProviderClient.ts\<close>. A failure (a rejected promise or a thrown
  \<^verbatim>\<open>Error\<close>) is a value of type \<open>error\<close>; \<open>errorText\<close> is its conversion to a
  string inside a template literal. \<open>EmptyError\<close> is the error with which the
  reactive library rejects when a stream ends before its first value. A promise is
  modelled at its settlement; \<open>Pending\<close> is the promise that never settles.
\<close>

datatype error = Error string | EmptyError

definition errorText :: "error \<Rightarrow> string" where
  "errorText e =
     (case e of
        Error message \<Rightarrow> ''Error: '' @ message
      | EmptyError \<Rightarrow> ''EmptyError: no elements in sequence'')"

datatype 'a promise = Resolved 'a | Rejected error | Pending

text \<open>
  The transport (\<^verbatim>\<open>createTransport\<close>, not among the sources) is a parameter: three
  methods that act on a state \<open>'s\<close> of everything behind the transport (the provider, the
  network, the transport's own capability cache) and settle with a result (\<open>Inr\<close>) or a
  failure (\<open>Inl\<close>). A result of \<^verbatim>\<open>items\<close> or \<^verbatim>\<open>annotations\<close> may be
  \<^verbatim>\<open>null\<close>, which is \<open>None\<close>.
\<close>

record 's ProviderTransport =
  transport_capabilities :: "ProviderSettings \<Rightarrow> 's \<Rightarrow> (error + CapabilitiesResult) \<times> 's"
  transport_items ::
    "ResourceParams \<Rightarrow> ProviderSettings \<Rightarrow> 's \<Rightarrow> (error + Item list option) \<times> 's"
  transport_annotations ::
    "ResourceParams \<Rightarrow> ProviderSettings \<Rightarrow> 's \<Rightarrow> (error + Annotation list option) \<times> 's"

text \<open>
  What a call of the provider client does besides returning: the transport methods it
  invokes and the messages it hands to its logger, in order.
\<close>

datatype providerMethod = Capabilities | Items | Annotations

datatype event = TransportCall providerMethod | LoggerCall string

text \<open>
  Modelled from the spec: the module \<^verbatim>\<open>../logger\<close> with the type \<^verbatim>\<open>Logger\<close>
  and \<^verbatim>\<open>scopedLogger\<close> is not among the sources. By section 6 of the specification
  a logger is a sink for free-text diagnostic messages: a call hands it the message and
  returns. The only logger that reaches \<^verbatim>\<open>createProviderClient\<close> in the sources is
  the one \<^verbatim>\<open>createClient\<close> builds and gives to the pool, which passes the message
  on inside a promise whose failure it catches, so a call of it returns normally.
  \<^verbatim>\<open>scopedLogger\<close> is taken to yield \<^verbatim>\<open>undefined\<close> exactly when no logger is
  given. The flag \<open>logger\<close> says whether one is given, and \<open>optionalCall\<close> is the
  optional call \<^verbatim>\<open>logger?.(message)\<close>: its argument is only evaluated when the
  logger is there. The messages are built from values of the protocol's types, for
  which \<^verbatim>\<open>JSON.stringify\<close> does not fail.
\<close>

definition optionalCall :: "bool \<Rightarrow> string \<Rightarrow> event list" where
  "optionalCall logger message = (if logger then [LoggerCall message] else [])"

definition ProviderClient_items ::
  "'s ProviderTransport \<Rightarrow> bool \<Rightarrow> ResourceParams \<Rightarrow> ProviderSettings \<Rightarrow> 's \<Rightarrow>
     Item list option promise \<times> 's \<times> event list" where
  "ProviderClient_items transport logger params settings s =
     (case transport_items transport params settings s of
        (Inr result, s') \<Rightarrow> (Resolved result, s', [TransportCall Items])
      | (Inl err, s') \<Rightarrow>
          (Rejected err, s',
           TransportCall Items #
           optionalCall logger (''failed to get items: '' @ errorText err)))"

definition skippingMessage :: "ResourceParams \<Rightarrow> string" where
  "skippingMessage params =
     ''skipping items for '' @ quoteJSONString (uri params) @
     '' because it did not match the provider'' @ [CHR 0x27] @ ''s selector''"

definition ProviderClient_annotations ::
  "glob \<Rightarrow> 's ProviderTransport \<Rightarrow> bool \<Rightarrow> ResourceParams \<Rightarrow> ProviderSettings \<Rightarrow> 's \<Rightarrow>
     Annotation list option promise \<times> 's \<times> event list" where
  "ProviderClient_annotations globMatch transport logger params settings s =
     (let checking = optionalCall logger ''checking provider capabilities'' @
                     [TransportCall Capabilities]
      in case transport_capabilities transport settings s of
           (Inl err, s1) \<Rightarrow>
             (Rejected err, s1,
              checking @
              optionalCall logger (''failed to get provider capabilities: '' @ errorText err))
         | (Inr capabilities, s1) \<Rightarrow>
             (let received = checking @
                    optionalCall logger
                      (''received capabilities = '' @ jsonCapabilities capabilities);
                  capable = matchSelectors globMatch (selector capabilities) params
              in if \<not> capable
                 then (Resolved None, s1, received @ optionalCall logger (skippingMessage params))
                 else (case transport_annotations transport params settings s1 of
                         (Inr result, s2) \<Rightarrow>
                           (Resolved result, s2, received @ [TransportCall Annotations])
                       | (Inl err, s2) \<Rightarrow>
                           (Rejected err, s2,
                            received @ [TransportCall Annotations] @
                            optionalCall logger
                              (''failed to get annotations: '' @ errorText err)))))"

text \<open>
  Modelled from the spec: the type \<^verbatim>\<open>Logger\<close> of the module \<^verbatim>\<open>../logger\<close>,
  which is not among the sources. By section 6 of the specification a logger is a
  function of the host that is handed a free-text message. As any function of the
  language can, a call of it may act on the state, and may throw instead of returning;
  the outcome \<open>None\<close> is a call that returns.
\<close>

type_synonym 's Logger = "string \<Rightarrow> 's \<Rightarrow> error option \<times> 's"

text \<open>
  The same two methods with the logger as the function it is. The logger the methods
  use is the value of the variable \<^verbatim>\<open>logger\<close> after the first statement of
  \<^verbatim>\<open>createProviderClient\<close>, \<^verbatim>\<open>undefined\<close> or a function, and the transport
  is made by \<^verbatim>\<open>createTransport\<close> with that logger among its options, so
  \<^verbatim>\<open>createTransport\<close> is a function of it here. \<^verbatim>\<open>JSON.stringify\<close> of the
  capabilities the transport returned is a parameter that yields the text or throws.

  In \<^verbatim>\<open>logger?.(message)\<close> the message is only evaluated, and the logger only
  called, when there is a logger. Inside a \<^verbatim>\<open>try\<close> block whatever is thrown goes
  to the \<^verbatim>\<open>catch\<close> block; what is thrown inside a \<^verbatim>\<open>catch\<close> block or outside
  any \<^verbatim>\<open>try\<close> rejects the promise of the \<^verbatim>\<open>async\<close> method. A call of the logger
  is recorded with its message whether it returns or throws.
\<close>

definition optionalLoggerCall ::
  "'s Logger option \<Rightarrow> error + string \<Rightarrow> 's \<Rightarrow> error option \<times> 's \<times> event list" where
  "optionalLoggerCall logger message s =
     (case logger of
        None \<Rightarrow> (None, s, [])
      | Some call \<Rightarrow>
          (case message of
             Inl thrown \<Rightarrow> (Some thrown, s, [])
           | Inr text \<Rightarrow>
               (case call text s of (outcome, s') \<Rightarrow> (outcome, s', [LoggerCall text]))))"

text \<open>
  A \<^verbatim>\<open>catch\<close> block of the two methods:
  \<^verbatim>\<open>logger?.(`... ${error}`); return Promise.reject(error)\<close>.
\<close>

definition catchBlock ::
  "'s Logger option \<Rightarrow> string \<Rightarrow> error \<Rightarrow> 's \<Rightarrow> event list \<Rightarrow> 'a promise \<times> 's \<times> event list" where
  "catchBlock logger what err s before =
     (case optionalLoggerCall logger (Inr (what @ errorText err)) s of
        (Some thrown, s', logged) \<Rightarrow> (Rejected thrown, s', before @ logged)
      | (None, s', logged) \<Rightarrow> (Rejected err, s', before @ logged))"

definition createProviderClient_items ::
  "('s Logger option \<Rightarrow> 's ProviderTransport) \<Rightarrow> 's Logger option \<Rightarrow> ResourceParams \<Rightarrow>
     ProviderSettings \<Rightarrow> 's \<Rightarrow> Item list option promise \<times> 's \<times> event list" where
  "createProviderClient_items createTransport logger params settings s =
     (case transport_items (createTransport logger) params settings s of
        (Inr result, s') \<Rightarrow> (Resolved result, s', [TransportCall Items])
      | (Inl err, s') \<Rightarrow>
          catchBlock logger ''failed to get items: '' err s' [TransportCall Items])"

definition createProviderClient_annotations ::
  "glob \<Rightarrow> ('s Logger option \<Rightarrow> 's ProviderTransport) \<Rightarrow>
     (CapabilitiesResult \<Rightarrow> error + string) \<Rightarrow>
     's Logger option \<Rightarrow> ResourceParams \<Rightarrow> ProviderSettings \<Rightarrow> 's \<Rightarrow>
     Annotation list option promise \<times> 's \<times> event list" where
  "createProviderClient_annotations globMatch createTransport stringify logger params settings s =
     (case optionalLoggerCall logger (Inr ''checking provider capabilities'') s of
        (Some thrown, s0, checking) \<Rightarrow>
          catchBlock logger ''failed to get provider capabilities: '' thrown s0 checking
      | (None, s0, checking) \<Rightarrow>
          (case transport_capabilities (createTransport logger) settings s0 of
             (Inl err, s1) \<Rightarrow>
               catchBlock logger ''failed to get provider capabilities: '' err s1
                 (checking @ [TransportCall Capabilities])
           | (Inr capabilities, s1) \<Rightarrow>
               (case optionalLoggerCall logger
                       (map_sum id (\<lambda>text. ''received capabilities = '' @ text)
                          (stringify capabilities)) s1 of
                  (Some thrown, s2, received) \<Rightarrow>
                    catchBlock logger ''failed to get provider capabilities: '' thrown s2
                      (checking @ [TransportCall Capabilities] @ received)
                | (None, s2, received) \<Rightarrow>
                    (if \<not> matchSelectors globMatch (selector capabilities) params
                     then (case optionalLoggerCall logger (Inr (skippingMessage params)) s2 of
                             (Some thrown, s3, skipping) \<Rightarrow>
                               (Rejected thrown, s3,
                                checking @ [TransportCall Capabilities] @ received @ skipping)
                           | (None, s3, skipping) \<Rightarrow>
                               (Resolved None, s3,
                                checking @ [TransportCall Capabilities] @ received @ skipping))
                     else (case transport_annotations (createTransport logger) params settings s2 of
                             (Inr result, s3) \<Rightarrow>
                               (Resolved result, s3,
                                checking @ [TransportCall Capabilities] @ received @
                                [TransportCall Annotations])
                           | (Inl err, s3) \<Rightarrow>
                               catchBlock logger ''failed to get annotations: '' err s3
                                 (checking @ [TransportCall Capabilities] @ received @
                                  [TransportCall Annotations]))))))"

section \<open>Provider connection pool\<close>

text \<open>
  \<^verbatim>\<open>createProviderPool\<close> of the client facade. The key of the cache is the JSON text
  of \<^verbatim>\<open>{ providerUri, authInfo }\<close>. The headers of an \<^verbatim>\<open>AuthInfo\<close> are an object
  from names to values: an association list in the object's enumeration order, which is
  the order \<^verbatim>\<open>JSON.stringify\<close> writes them in. The facade passes
  \<^verbatim>\<open>authInfo ?? undefined\<close>, so an absent \<^verbatim>\<open>authInfo\<close> is always
  \<^verbatim>\<open>undefined\<close> and is left out of the text.
\<close>

record AuthInfo =
  headers :: "(string \<times> string) list option"

record ProviderCacheKey =
  providerUri :: string
  authInfo :: "AuthInfo option"

definition jsonHeaders :: "(string \<times> string) list \<Rightarrow> string" where
  "jsonHeaders hs = jsonObject (map (\<lambda>(name, v). jsonProperty name (quoteJSONString v)) hs)"

definition jsonAuthInfo :: "AuthInfo \<Rightarrow> string" where
  "jsonAuthInfo a = jsonObject (jsonOptional ''headers'' jsonHeaders (headers a))"

definition cacheKey :: "ProviderCacheKey \<Rightarrow> string" where
  "cacheKey key =
     jsonObject (jsonProperty ''providerUri'' (quoteJSONString (providerUri key)) #
                 jsonOptional ''authInfo'' jsonAuthInfo (authInfo key))"

text \<open>
  A provider client is an object; two references are the same object exactly when their
  \<open>objectId\<close> numbers agree. \<^verbatim>\<open>createProviderClient\<close> makes a new object on every
  call: the pool counts the objects made so far and numbers the next one with the count.
  The other fields are the options the object was made with. The module-loading hooks
  are only handed on to the transport and belong to the transport parameter.
\<close>

record ProviderClient =
  objectId :: nat
  client_providerUri :: string
  client_authInfo :: "AuthInfo option"
  client_providerBaseUri :: "string option"
  client_logger :: bool

record PoolEnv =
  providerBaseUri_env :: "string option"
  logger_env :: bool

definition createProviderClient ::
  "nat \<Rightarrow> string \<Rightarrow> AuthInfo option \<Rightarrow> PoolEnv \<Rightarrow> ProviderClient" where
  "createProviderClient fresh provider auth env =
     \<lparr>objectId = fresh, client_providerUri = provider, client_authInfo = auth,
      client_providerBaseUri = providerBaseUri_env env, client_logger = logger_env env\<rparr>"

text \<open>
  The cache is an \<^verbatim>\<open>LRUCache\<close> of the library \<^verbatim>\<open>lru-cache\<close>, made with
  \<^verbatim>\<open>ttl: 1000 * 60 * 5\<close>, \<^verbatim>\<open>ttlResolution: 1000\<close>, \<^verbatim>\<open>ttlAutopurge: true\<close> and
  no size bound. The library is not part of the repository; it is modelled as it
  documents and implements its time-to-live. \<^verbatim>\<open>set\<close> stores the value with the
  exact time of the write, and \<^verbatim>\<open>get\<close> does not renew that time. Time is in whole
  milliseconds, handed to every operation.

  Staleness is the library's test
  \<^verbatim>\<open>!!ttl && !!start && (cachedNow || getNow()) - start > ttl\<close>. An entry whose
  start is 0 is never stale. The clock is read through a cache: \<^verbatim>\<open>getNow\<close> reads
  the clock, keeps the reading in \<^verbatim>\<open>cachedNow\<close> and sets a timer that clears it
  \<^verbatim>\<open>ttlResolution\<close> milliseconds later; until then the test uses the kept
  reading, which can be up to a second old. \<open>cachedNow = 0\<close> stands for a cleared
  reading, as in the library.
\<close>

record 'v LRUEntry =
  entry_value :: 'v
  entry_start :: nat

record 'v LRUCache =
  lru_entries :: "string \<Rightarrow> 'v LRUEntry option"
  cachedNow :: nat

definition ttl :: nat where
  "ttl = 1000 * 60 * 5"

definition ttlResolution :: nat where
  "ttlResolution = 1000"

text \<open>The expression \<^verbatim>\<open>cachedNow || getNow()\<close> evaluated at time \<open>now\<close>.\<close>

definition clockReading :: "'v LRUCache \<Rightarrow> nat \<Rightarrow> nat \<times> 'v LRUCache" where
  "clockReading c now =
     (if cachedNow c \<noteq> 0 \<and> now < cachedNow c + ttlResolution
      then (cachedNow c, c)
      else (now, c\<lparr>cachedNow := now\<rparr>))"

definition isStale :: "nat \<Rightarrow> 'v LRUEntry \<Rightarrow> bool" where
  "isStale reading e = (entry_start e \<noteq> 0 \<and> entry_start e + ttl < reading)"

text \<open>
  \<^verbatim>\<open>get\<close>: a stale entry is removed and \<^verbatim>\<open>undefined\<close> is returned. The clock
  is only consulted for an entry whose start is not 0.
\<close>

definition LRUCache_get :: "'v LRUCache \<Rightarrow> nat \<Rightarrow> string \<Rightarrow> 'v option \<times> 'v LRUCache" where
  "LRUCache_get c now k =
     (case lru_entries c k of
        None \<Rightarrow> (None, c)
      | Some e \<Rightarrow>
          (if entry_start e = 0 then (Some (entry_value e), c)
           else (case clockReading c now of
                   (reading, c') \<Rightarrow>
                     if isStale reading e
                     then (None, c'\<lparr>lru_entries := (lru_entries c')(k := None)\<rparr>)
                     else (Some (entry_value e), c'))))"

definition LRUCache_set :: "'v LRUCache \<Rightarrow> nat \<Rightarrow> string \<Rightarrow> 'v \<Rightarrow> 'v LRUCache" where
  "LRUCache_set c now k v =
     c\<lparr>lru_entries := (lru_entries c)(k \<mapsto> \<lparr>entry_value = v, entry_start = now\<rparr>)\<rparr>"

text \<open>
  The purge timer that \<^verbatim>\<open>ttlAutopurge\<close> sets for an entry makes the same test
  as \<^verbatim>\<open>get\<close> and removes the entry if it is stale.
\<close>

definition LRUCache_purge :: "'v LRUCache \<Rightarrow> nat \<Rightarrow> string \<Rightarrow> 'v LRUCache" where
  "LRUCache_purge c now k = snd (LRUCache_get c now k)"

record ProviderPool =
  cache :: "ProviderClient LRUCache"
  created :: nat

definition createProviderPool :: ProviderPool where
  "createProviderPool = \<lparr>cache = \<lparr>lru_entries = (\<lambda>k. None), cachedNow = 0\<rparr>, created = 0\<rparr>"

definition getOrCreate ::
  "ProviderPool \<Rightarrow> nat \<Rightarrow> ProviderCacheKey \<Rightarrow> PoolEnv \<Rightarrow> ProviderClient \<times> ProviderPool" where
  "getOrCreate pool now key env =
     (case LRUCache_get (cache pool) now (cacheKey key) of
        (Some existing, c) \<Rightarrow> (existing, pool\<lparr>cache := c\<rparr>)
      | (None, c) \<Rightarrow>
          (let client = createProviderClient (created pool) (providerUri key) (authInfo key) env
           in (client,
               \<lparr>cache = LRUCache_set c now (cacheKey key) client,
                created = Suc (created pool)\<rparr>)))"

text \<open>
  What happens to a pool between two calls of interest: further calls of
  \<^verbatim>\<open>getOrCreate\<close> and purge timers that fire, each at its own time.
\<close>

datatype poolOp = Call nat ProviderCacheKey PoolEnv | Purge nat string

fun opTime :: "poolOp \<Rightarrow> nat" where
  "opTime (Call now key env) = now"
| "opTime (Purge now k) = now"

fun poolStep :: "ProviderPool \<Rightarrow> poolOp \<Rightarrow> ProviderPool" where
  "poolStep pool (Call now key env) = snd (getOrCreate pool now key env)"
| "poolStep pool (Purge now k) = pool\<lparr>cache := LRUCache_purge (cache pool) now k\<rparr>"

definition poolRun :: "ProviderPool \<Rightarrow> poolOp list \<Rightarrow> ProviderPool" where
  "poolRun pool ops = foldl poolStep pool ops"

text \<open>
  Structural equality of two keys, as a deep comparison of the objects sees it: the same
  provider URI, and credentials that are both absent or both present with the same
  header object, that is the same set of name and value pairs whatever their order.
\<close>

definition sameHeaders ::
  "(string \<times> string) list option \<Rightarrow> (string \<times> string) list option \<Rightarrow> bool" where
  "sameHeaders a b =
     (case (a, b) of
        (None, None) \<Rightarrow> True
      | (Some hs, Some hs') \<Rightarrow>
          distinct (map fst hs) \<and> distinct (map fst hs') \<and> set hs = set hs'
      | _ \<Rightarrow> False)"

definition structurallyEqual :: "ProviderCacheKey \<Rightarrow> ProviderCacheKey \<Rightarrow> bool" where
  "structurallyEqual k k' =
     (providerUri k = providerUri k' \<and>
      (case (authInfo k, authInfo k') of
         (None, None) \<Rightarrow> True
       | (Some a, Some a') \<Rightarrow> sameHeaders (headers a) (headers a')
       | _ \<Rightarrow> False))"

text \<open>
  Invariants of the pool. \<open>poolOk\<close>: every cached client was numbered below the count
  of clients made so far. \<open>laterEntry n k e\<close>: at least \<open>n\<close> clients were made, and
  whatever is cached under \<open>k\<close> is the entry \<open>e\<close> or holds a client made when the count
  had reached \<open>n\<close>. \<open>clockUpTo t\<close>: the kept reading of the clock is not later than
  \<open>t\<close>.
\<close>

definition poolOk :: "ProviderPool \<Rightarrow> bool" where
  "poolOk p =
     (\<forall>k e. lru_entries (cache p) k = Some e \<longrightarrow> objectId (entry_value e) < created p)"

definition laterEntry ::
  "nat \<Rightarrow> string \<Rightarrow> ProviderClient LRUEntry \<Rightarrow> ProviderPool \<Rightarrow> bool" where
  "laterEntry n k e pool =
     (n \<le> created pool \<and>
      (\<forall>e'. lru_entries (cache pool) k = Some e' \<longrightarrow>
         e' = e \<or> n \<le> objectId (entry_value e')))"

definition clockUpTo :: "nat \<Rightarrow> ProviderPool \<Rightarrow> bool" where
  "clockUpTo t pool = (cachedNow (cache pool) \<le> t)"

text \<open>Keys and an environment for concrete runs of the pool.\<close>

definition keyNoAuth :: ProviderCacheKey where
  "keyNoAuth = \<lparr>providerUri = ''https://example.com/p'', authInfo = None\<rparr>"

definition keyTokenFirst :: ProviderCacheKey where
  "keyTokenFirst = \<lparr>providerUri = ''https://example.com/p'',
     authInfo = Some \<lparr>headers = Some [(''Authorization'', ''Bearer t''), (''X-Org'', ''acme'')]\<rparr>\<rparr>"

definition keyOrgFirst :: ProviderCacheKey where
  "keyOrgFirst = \<lparr>providerUri = ''https://example.com/p'',
     authInfo = Some \<lparr>headers = Some [(''X-Org'', ''acme''), (''Authorization'', ''Bearer t'')]\<rparr>\<rparr>"

definition envPlain :: PoolEnv where
  "envPlain = \<lparr>providerBaseUri_env = None, logger_env = True\<rparr>"

text \<open>
  The transport calls among the events of a run, in order.
\<close>

definition transportCalls :: "event list \<Rightarrow> providerMethod list" where
  "transportCalls events =
     concat (map (\<lambda>ev. case ev of TransportCall m \<Rightarrow> [m] | LoggerCall message \<Rightarrow> [])
                 events)"

text \<open>
  Stub transports for concrete runs. The state is the number of times the transport's
  \<^verbatim>\<open>annotations\<close> method has been invoked. \<open>countingStub sel\<close> reports the selector
  list \<open>sel\<close> and answers every request with an empty list; \<open>failingStub\<close> fails in
  every method, like the test provider \<^verbatim>\<open>methodsThrow.js\<close> does for items and
  annotations.
\<close>

definition countingStub :: "Selector list option \<Rightarrow> nat ProviderTransport" where
  "countingStub sel =
     \<lparr>transport_capabilities = (\<lambda>settings n. (Inr \<lparr>selector = sel\<rparr>, n)),
      transport_items = (\<lambda>params settings n. (Inr (Some []), n)),
      transport_annotations = (\<lambda>params settings n. (Inr (Some []), Suc n))\<rparr>"

definition failingStub :: "nat ProviderTransport" where
  "failingStub =
     \<lparr>transport_capabilities = (\<lambda>settings n. (Inl (Error ''capabilitiesThrow''), n)),
      transport_items = (\<lambda>params settings n. (Inl (Error ''itemsThrow''), n)),
      transport_annotations = (\<lambda>params settings n. (Inl (Error ''annotationsThrow''), Suc n))\<rparr>"

definition goFile :: ResourceParams where
  "goFile = \<lparr>uri = ''file:///a/b.go'', content = Some ''package main''\<rparr>"

text \<open>
  Loggers for concrete runs: one whose every call returns and one whose every call
  throws; neither touches the state.
\<close>

definition returningLogger :: "nat Logger" where
  "returningLogger message s = (None, s)"

definition throwingLogger :: "nat Logger" where
  "throwingLogger message s = (Some (Error ''loggerThrow''), s)"

section \<open>Client facade\<close>

text \<open>
  \<^verbatim>\<open>createClient\<close>. The sources hold the module twice: an earlier text whose client
  has \<^verbatim>\<open>items\<close>, \<^verbatim>\<open>itemsChanges\<close> and \<^verbatim>\<open>dispose\<close>, and a later text that adds
  \<^verbatim>\<open>annotations\<close> and \<^verbatim>\<open>annotationsChanges\<close> and moves the resolution of the
  provider list into \<^verbatim>\<open>providerClientsWithSettings\<close>. The pool and the resolution of
  the provider list are the same in both, but for the option \<^verbatim>\<open>providerBaseUri\<close>
  that only the later text knows and hands on; the definitions follow the later text
  and say where the earlier one differs.
\<close>

subsection \<open>Streams\<close>

text \<open>
  The reactive library (RxJS) is modelled by the contract of the operators the facade
  uses. An observable is what a subscriber sees of it: the values emitted, in order, and
  how it ends (it completes, it fails, or it stays open). The first notification of an
  observable is its first value, its failure, or its completion without a value.
\<close>

datatype terminal = Completed | Errored error | Open

record 'a observable =
  emitted :: "'a list"
  ending :: terminal

datatype 'a notification = Next 'a | Failed error | Done

text \<open>
  \<^verbatim>\<open>firstValueFrom(source, config)\<close>: the promise of the first value. When the source
  completes without a value, the promise resolves to \<^verbatim>\<open>config.defaultValue\<close> if a
  configuration is given, and rejects with an \<^verbatim>\<open>EmptyError\<close> if none is.
\<close>

definition firstValueFrom :: "'a observable \<Rightarrow> 'a option \<Rightarrow> 'a promise" where
  "firstValueFrom source defaultValue =
     (case emitted source of
        v # later \<Rightarrow> Resolved v
      | [] \<Rightarrow>
          (case ending source of
             Completed \<Rightarrow>
               (case defaultValue of Some d \<Rightarrow> Resolved d | None \<Rightarrow> Rejected EmptyError)
           | Errored err \<Rightarrow> Rejected err
           | Open \<Rightarrow> Pending))"

text \<open>
  \<^verbatim>\<open>combineLatest\<close> of a non-empty list of observables emits once every one of them
  has emitted; its first value is the list of their first values. Of an empty list it
  emits nothing, which is why the facade does not call it then.
\<close>

definition combineLatest :: "'a notification list \<Rightarrow> 'a list option" where
  "combineLatest inner =
     (if inner \<noteq> [] \<and> list_all (\<lambda>n. case n of Next v \<Rightarrow> True | _ \<Rightarrow> False) inner
      then Some (concat (map (\<lambda>n. case n of Next v \<Rightarrow> [v] | _ \<Rightarrow> []) inner))
      else None)"

subsection \<open>Configuration\<close>

text \<open>
  The configuration as the host supplies it. A provider entry is the provider's settings
  or the sentinel \<^verbatim>\<open>false\<close>, which is \<open>None\<close>; the entries are in the enumeration
  order of the \<^verbatim>\<open>providers\<close> object.
\<close>

record ConfigurationUserInput =
  enable :: "bool option"
  debug :: "bool option"
  providers :: "(string \<times> ProviderSettings option) list option"

record Configuration =
  cfg_enable :: bool
  cfg_debug :: bool
  cfg_providers :: "(string \<times> ProviderSettings) list"

text \<open>
  Modelled from the spec: the module \<^verbatim>\<open>../configuration\<close> that exports
  \<^verbatim>\<open>configurationFromUserInput\<close> is not among the sources. By sections 3 and 6 of the
  specification it yields the typed form of the input, \<open>enabled\<close>, \<open>debug\<close> and the
  ordered list of provider URI and settings, leaving out every provider whose entry is
  the sentinel. The specification does not say how an absent flag reads; it reads as
  false here, as the facade itself reads an absent \<^verbatim>\<open>enable\<close>, and no property
  below depends on the two flags of the result. The function only reads its argument.
\<close>

definition configurationFromUserInput :: "ConfigurationUserInput \<Rightarrow> Configuration" where
  "configurationFromUserInput raw =
     \<lparr>cfg_enable = (enable raw = Some True),
      cfg_debug = (debug raw = Some True),
      cfg_providers =
        (case providers raw of
           None \<Rightarrow> []
         | Some entries \<Rightarrow>
             concat (map (\<lambda>(provider, settings).
                            case settings of None \<Rightarrow> [] | Some s \<Rightarrow> [(provider, s)])
                         entries))\<rparr>"

text \<open>
  The callback of the first \<^verbatim>\<open>map\<close>: when \<^verbatim>\<open>config.enable\<close> is falsy, that is
  \<^verbatim>\<open>false\<close> or absent, the configuration is replaced by
  \<^verbatim>\<open>{ ...config, providers: {} }\<close> before it is resolved.
\<close>

definition falsy :: "bool option \<Rightarrow> bool" where
  "falsy flag = (case flag of None \<Rightarrow> True | Some b \<Rightarrow> \<not> b)"

definition gateConfiguration :: "ConfigurationUserInput \<Rightarrow> ConfigurationUserInput" where
  "gateConfiguration config =
     (if falsy (enable config) then config\<lparr>providers := Some []\<rparr> else config)"

definition resolveConfiguration :: "ConfigurationUserInput \<Rightarrow> Configuration" where
  "resolveConfiguration config = configurationFromUserInput (gateConfiguration config)"

subsection \<open>The environment\<close>

text \<open>
  The hooks of \<^verbatim>\<open>ClientEnv\<close>. \<^verbatim>\<open>configuration(resource)\<close> is the stream of
  configurations for a resource, each with the reading of the pool's clock at its
  arrival. \<^verbatim>\<open>authInfo(provider)\<close>, if the hook is set, is a function of the host:
  a call of it throws, or it returns an observable input, which is taken at its first
  notification: credentials or \<^verbatim>\<open>null\<close>, a failure, or nothing at all.
  \<open>env_logger\<close> says whether the host gave a logger. \<open>env_mock\<close> is the test hook
  \<^verbatim>\<open>__mock__.getProviderClient\<close>. \<^verbatim>\<open>makeRange\<close> only converts the ranges of the
  annotations handed to the host and is left out.
\<close>

datatype 'a hookResult = Throws error | Returns 'a

record ClientEnv =
  env_configuration :: "string option \<Rightarrow> (nat \<times> ConfigurationUserInput) observable"
  env_providerBaseUri :: "string option"
  env_authInfo :: "(string \<Rightarrow> AuthInfo option notification hookResult) option"
  env_logger :: bool
  env_mock :: "ProviderClient option"

text \<open>
  What the facade does besides emitting values: what a provider client did, a message
  handed to the facade's own logger (which passes it to the host's logger when the
  \<^verbatim>\<open>debug\<close> flag of the configuration is on), and a message handed to the host's
  logger directly.
\<close>

datatype facadeEvent =
  ProviderEvent ProviderClient event
| FacadeLog string
| HostLog string

subsection \<open>Resolving the provider list\<close>

text \<open>
  The expression \<^verbatim>\<open>env.authInfo ? from(env.authInfo(providerUri)) : of(null)\<close>:
  the call of the hook, which may throw, and the observable made from what it returns.
\<close>

type_synonym ProviderClientWithSettings = "ProviderClient \<times> ProviderSettings"

definition lookupAuthInfo ::
  "ClientEnv \<Rightarrow> string \<Rightarrow> AuthInfo option notification hookResult" where
  "lookupAuthInfo env provider =
     (case env_authInfo env of None \<Rightarrow> Returns (Next None) | Some hook \<Rightarrow> hook provider)"

text \<open>
  \<^verbatim>\<open>configuration.providers.map(...)\<close> builds the list of observables that is
  handed to \<^verbatim>\<open>combineLatest\<close>. Its callback evaluates the expression above for
  each provider in turn, before anything is subscribed to and outside the
  \<^verbatim>\<open>catchError\<close> of the pipe it then builds: when the hook throws for a provider,
  the \<^verbatim>\<open>map\<close> is left with that error and the hooks of the later providers are not
  called.
\<close>

fun authInfoStreams ::
  "ClientEnv \<Rightarrow> (string \<times> ProviderSettings) list \<Rightarrow>
     error + ((string \<times> ProviderSettings) \<times> AuthInfo option notification) list" where
  "authInfoStreams env [] = Inr []"
| "authInfoStreams env ((provider, settings) # entries) =
     (case lookupAuthInfo env provider of
        Throws err \<Rightarrow> Inl err
      | Returns input \<Rightarrow>
          (case authInfoStreams env entries of
             Inl err \<Rightarrow> Inl err
           | Inr inputs \<Rightarrow> Inr (((provider, settings), input) # inputs)))"

text \<open>
  One element of the \<^verbatim>\<open>combineLatest\<close> list, once subscribed to: on the
  credentials of the provider the \<^verbatim>\<open>map\<close> obtains the client from the mock or from
  the pool, and \<^verbatim>\<open>catchError\<close> turns a failure of the credentials into a message
  for the facade's logger and the value \<^verbatim>\<open>null\<close>.
\<close>

definition creationErrorMessage :: "string \<Rightarrow> error \<Rightarrow> string" where
  "creationErrorMessage provider err =
     ''Error creating provider client for '' @ provider @ '': '' @ errorText err"

definition resolveProvider ::
  "ClientEnv \<Rightarrow> nat \<Rightarrow> ProviderPool \<Rightarrow>
     (string \<times> ProviderSettings) \<times> AuthInfo option notification \<Rightarrow>
     ProviderClientWithSettings option notification \<times> ProviderPool \<times> facadeEvent list" where
  "resolveProvider env now pool stream =
     (case stream of ((provider, settings), input) \<Rightarrow>
        (case input of
           Next auth \<Rightarrow>
             (case env_mock env of
                Some mock \<Rightarrow> (Next (Some (mock, settings)), pool, [])
              | None \<Rightarrow>
                  (case getOrCreate pool now \<lparr>providerUri = provider, authInfo = auth\<rparr>
                          \<lparr>providerBaseUri_env = env_providerBaseUri env, logger_env = True\<rparr> of
                     (client, pool') \<Rightarrow> (Next (Some (client, settings)), pool', [])))
         | Failed err \<Rightarrow> (Next None, pool, [FacadeLog (creationErrorMessage provider err)])
         | Done \<Rightarrow> (Done, pool, [])))"

fun resolveProviders ::
  "ClientEnv \<Rightarrow> nat \<Rightarrow> ProviderPool \<Rightarrow>
     ((string \<times> ProviderSettings) \<times> AuthInfo option notification) list \<Rightarrow>
     ProviderClientWithSettings option notification list \<times> ProviderPool \<times> facadeEvent list" where
  "resolveProviders env now pool [] = ([], pool, [])"
| "resolveProviders env now pool (stream # streams) =
     (case resolveProvider env now pool stream of
        (n, pool1, evs1) \<Rightarrow>
          (case resolveProviders env now pool1 streams of
             (ns, pool2, evs2) \<Rightarrow> (n # ns, pool2, evs1 @ evs2)))"

text \<open>
  What \<^verbatim>\<open>providerClientsWithSettings\<close> does for one configuration that arrives.
  It emits a list (\<open>Next\<close>): the list from \<^verbatim>\<open>combineLatest\<close>, or \<^verbatim>\<open>of([])\<close>
  when no provider is configured, with the \<^verbatim>\<open>null\<close> clients filtered out. Or it
  emits nothing (\<open>Done\<close>), when \<^verbatim>\<open>combineLatest\<close> does not. Or the callback of
  \<^verbatim>\<open>mergeMap\<close> throws, which \<^verbatim>\<open>mergeMap\<close> turns into the failure of the whole
  stream (\<open>Failed\<close>).
\<close>

definition filterNull :: "'a option list \<Rightarrow> 'a list" where
  "filterNull xs = concat (map (\<lambda>x. case x of None \<Rightarrow> [] | Some v \<Rightarrow> [v]) xs)"

definition providerClientsWithSettings ::
  "ClientEnv \<Rightarrow> nat \<Rightarrow> ProviderPool \<Rightarrow> ConfigurationUserInput \<Rightarrow>
     ProviderClientWithSettings list notification \<times> ProviderPool \<times> facadeEvent list" where
  "providerClientsWithSettings env now pool config =
     (let configuration = resolveConfiguration config
      in if length (cfg_providers configuration) > 0
         then (case authInfoStreams env (cfg_providers configuration) of
                 Inl err \<Rightarrow> (Failed err, pool, [])
               | Inr streams \<Rightarrow>
                   (case resolveProviders env now pool streams of
                      (ns, pool', evs) \<Rightarrow>
                        (case combineLatest ns of
                           Some clients \<Rightarrow> (Next (filterNull clients), pool', evs)
                         | None \<Rightarrow> (Done, pool', evs))))
         else (Next (filterNull []), pool, []))"

subsection \<open>Aggregation engine\<close>

text \<open>
  Modelled from the spec: the module \<^verbatim>\<open>../api\<close> that exports \<^verbatim>\<open>observeItems\<close> and
  \<^verbatim>\<open>observeAnnotations\<close> is not among the sources. By section 4.5 of the
  specification, for one provider list the engine issues the call to every provider in
  the order of the list; a failure is logged to the logger it was given and counts as
  an empty contribution, as does a \<^verbatim>\<open>null\<close> result; a call that never settles has
  not contributed. The combined value is the concatenation of the contributions in the
  order of the list. With \<open>emitPartial = False\<close> it is emitted once, when every
  provider has contributed; with \<open>emitPartial = True\<close> a snapshot is emitted whenever a
  provider contributes. With no provider at all the combined value is the empty list.
  The calls are taken to settle in the order of the list, each before the next one is
  issued.
\<close>

type_synonym ('s, 'r) providerCall =
  "ProviderClient \<Rightarrow> ProviderSettings \<Rightarrow> 's \<Rightarrow> 'r list option promise \<times> 's \<times> event list"

text \<open>
  Modelled from the spec: what one provider's outcome contributes and what is logged
  for it inside \<^verbatim>\<open>../api\<close> (section 4.5): a result contributes its list, a
  \<^verbatim>\<open>null\<close> result and a failure contribute the empty list, a failure is logged.
\<close>

definition contribution :: "'r list option promise \<Rightarrow> 'r list option" where
  "contribution outcome =
     (case outcome of
        Resolved (Some xs) \<Rightarrow> Some xs
      | Resolved None \<Rightarrow> Some []
      | Rejected err \<Rightarrow> Some []
      | Pending \<Rightarrow> None)"

definition failureLog :: "bool \<Rightarrow> 'r list option promise \<Rightarrow> facadeEvent list" where
  "failureLog logger outcome =
     (case outcome of
        Rejected err \<Rightarrow> (if logger then [HostLog (errorText err)] else [])
      | _ \<Rightarrow> [])"

text \<open>
  Modelled from the spec: the fan-out of \<^verbatim>\<open>../api\<close> over one provider list
  (section 4.5), in the order of the list.
\<close>

fun callProviders ::
  "('s, 'r) providerCall \<Rightarrow> bool \<Rightarrow> ProviderClientWithSettings list \<Rightarrow> 's \<Rightarrow>
     'r list option list \<times> 's \<times> facadeEvent list" where
  "callProviders call logger [] s = ([], s, [])"
| "callProviders call logger ((client, settings) # rest) s =
     (case call client settings s of
        (outcome, s1, evs) \<Rightarrow>
          (case callProviders call logger rest s1 of
             (cs, s2, evs2) \<Rightarrow>
               (contribution outcome # cs, s2,
                map (ProviderEvent client) evs @ failureLog logger outcome @ evs2)))"

text \<open>
  Modelled from the spec: the emission policy of \<^verbatim>\<open>../api\<close> (section 4.5) for
  the two values of \<open>emitPartial\<close>.
\<close>

fun partialSnapshots :: "'r list \<Rightarrow> 'r list option list \<Rightarrow> 'r list list" where
  "partialSnapshots acc [] = []"
| "partialSnapshots acc (None # cs) = partialSnapshots acc cs"
| "partialSnapshots acc (Some xs # cs) = (acc @ xs) # partialSnapshots (acc @ xs) cs"

definition combinedEmissions :: "bool \<Rightarrow> 'r list option list \<Rightarrow> 'r list list" where
  "combinedEmissions emitPartial cs =
     (if cs = [] then [[]]
      else if emitPartial then partialSnapshots [] cs
      else if list_all (\<lambda>c. c \<noteq> None) cs then [concat (filterNull cs)]
      else [])"

text \<open>
  Modelled from the spec: \<^verbatim>\<open>observeItems\<close> and \<^verbatim>\<open>observeAnnotations\<close> of
  \<^verbatim>\<open>../api\<close> on one provider list (section 4.5); which of the two it is lies in
  the call it is given.
\<close>

definition observe ::
  "('s, 'r) providerCall \<Rightarrow> bool \<Rightarrow> bool \<Rightarrow> ProviderClientWithSettings list \<Rightarrow> 's \<Rightarrow>
     'r list list \<times> 's \<times> facadeEvent list" where
  "observe call logger emitPartial providerClients s =
     (case callProviders call logger providerClients s of
        (cs, s', evs) \<Rightarrow> (combinedEmissions emitPartial cs, s', evs))"

subsection \<open>The operations of the client\<close>

text \<open>
  What is outside the facade and the pool: the transport that
  \<^verbatim>\<open>createProviderClient\<close> binds to a client object, the glob primitive, and the
  text that \<^verbatim>\<open>scopedLogger\<close> of the module \<^verbatim>\<open>../logger\<close>, which is not among the
  sources, makes of a scope and a message before it hands it on.
\<close>

record 's Runtime =
  rt_createTransport :: "ProviderClient \<Rightarrow> 's ProviderTransport"
  rt_glob :: glob
  rt_scope :: "string \<Rightarrow> string \<Rightarrow> string"

definition providerItems :: "'s Runtime \<Rightarrow> ResourceParams \<Rightarrow> ('s, Item) providerCall" where
  "providerItems rt params client settings s =
     ProviderClient_items (rt_createTransport rt client) (client_logger client) params settings s"

definition providerAnnotations ::
  "'s Runtime \<Rightarrow> ResourceParams \<Rightarrow> ('s, Annotation) providerCall" where
  "providerAnnotations rt params client settings s =
     ProviderClient_annotations (rt_glob rt) (rt_createTransport rt client) (client_logger client)
       params settings s"

text \<open>
  One configuration arriving on a subscribed stream: the provider list is resolved and,
  if one is emitted, handed to the aggregation engine together with the host's logger.
  The result is the values the combined stream emits in this cycle and, if the stream
  of provider lists failed, the failure.

  Modelled from the spec: what \<^verbatim>\<open>observeItems\<close> and \<^verbatim>\<open>observeAnnotations\<close> of
  \<^verbatim>\<open>../api\<close> do when the stream of provider lists fails. Section 4.5 recovers the
  failures of provider calls and nothing else, so the failure of the stream of provider
  lists is taken to reach the subscriber of the combined stream, as it does through
  the operators of the reactive library unless one of them catches it.
\<close>

definition cycle ::
  "ClientEnv \<Rightarrow> ('s, 'r) providerCall \<Rightarrow> bool \<Rightarrow> nat \<times> ConfigurationUserInput \<Rightarrow>
     ProviderPool \<times> 's \<Rightarrow>
     ('r list list \<times> error option) \<times> (ProviderPool \<times> 's) \<times> facadeEvent list" where
  "cycle env call emitPartial arrival state =
     (case (arrival, state) of ((now, config), (pool, s)) \<Rightarrow>
        (case providerClientsWithSettings env now pool config of
           (Failed err, pool', evs) \<Rightarrow> (([], Some err), (pool', s), evs)
         | (Done, pool', evs) \<Rightarrow> (([], None), (pool', s), evs)
         | (Next providerClients, pool', evs) \<Rightarrow>
             (case observe call (env_logger env) emitPartial providerClients s of
                (values, s', evs') \<Rightarrow> ((values, None), (pool', s'), evs @ evs'))))"

text \<open>
  The configurations that arrive one after the other. A stream that has failed is
  over: the configurations after the failure do not run a cycle.
\<close>

fun cycles ::
  "ClientEnv \<Rightarrow> ('s, 'r) providerCall \<Rightarrow> bool \<Rightarrow> (nat \<times> ConfigurationUserInput) list \<Rightarrow>
     ProviderPool \<times> 's \<Rightarrow>
     ('r list list \<times> error option) \<times> (ProviderPool \<times> 's) \<times> facadeEvent list" where
  "cycles env call emitPartial [] state = (([], None), state, [])"
| "cycles env call emitPartial (arrival # arrivals) state =
     (case cycle env call emitPartial arrival state of
        ((values, Some err), state1, evs) \<Rightarrow> ((values, Some err), state1, evs)
      | ((values, None), state1, evs) \<Rightarrow>
          (case cycles env call emitPartial arrivals state1 of
             ((values', failure), state2, evs') \<Rightarrow>
               ((values @ values', failure), state2, evs @ evs')))"

text \<open>
  The combined stream for a subscriber that stays subscribed: every configuration of
  the stream \<^verbatim>\<open>env.configuration(resource)\<close> runs one cycle, and the stream ends
  with the failure of a cycle if there is one and as the configuration stream does
  otherwise.
\<close>

definition changes ::
  "ClientEnv \<Rightarrow> ('s, 'r) providerCall \<Rightarrow> bool \<Rightarrow> string option \<Rightarrow> ProviderPool \<times> 's \<Rightarrow>
     'r list observable \<times> (ProviderPool \<times> 's) \<times> facadeEvent list" where
  "changes env call emitPartial resource state =
     (case cycles env call emitPartial (emitted (env_configuration env resource)) state of
        ((values, failure), state', evs) \<Rightarrow>
          (\<lparr>emitted = values,
            ending = (case failure of
                        Some err \<Rightarrow> Errored err
                      | None \<Rightarrow> ending (env_configuration env resource))\<rparr>,
           state', evs))"

text \<open>
  The later text asks for the configuration of no resource for items and of
  \<^verbatim>\<open>params.uri\<close> for annotations; the earlier text asks for the configuration of
  \<^verbatim>\<open>params.uri\<close> for items.
\<close>

definition itemsChanges ::
  "'s Runtime \<Rightarrow> ClientEnv \<Rightarrow> ResourceParams \<Rightarrow> bool \<Rightarrow> ProviderPool \<times> 's \<Rightarrow>
     Item list observable \<times> (ProviderPool \<times> 's) \<times> facadeEvent list" where
  "itemsChanges rt env params emitPartial state =
     changes env (providerItems rt params) emitPartial None state"

definition annotationsChanges ::
  "'s Runtime \<Rightarrow> ClientEnv \<Rightarrow> ResourceParams \<Rightarrow> bool \<Rightarrow> ProviderPool \<times> 's \<Rightarrow>
     Annotation list observable \<times> (ProviderPool \<times> 's) \<times> facadeEvent list" where
  "annotationsChanges rt env params emitPartial state =
     changes env (providerAnnotations rt params) emitPartial (Some (uri params)) state"

definition itemsChanges_earlier ::
  "'s Runtime \<Rightarrow> ClientEnv \<Rightarrow> ResourceParams \<Rightarrow> bool \<Rightarrow> ProviderPool \<times> 's \<Rightarrow>
     Item list observable \<times> (ProviderPool \<times> 's) \<times> facadeEvent list" where
  "itemsChanges_earlier rt env params emitPartial state =
     changes env (providerItems rt params) emitPartial (Some (uri params)) state"

text \<open>
  The pull operations. The later text gives \<^verbatim>\<open>firstValueFrom\<close> the configuration
  \<^verbatim>\<open>{ defaultValue: [] }\<close>; the earlier text gives it no configuration.
\<close>

definition Client_items ::
  "'s Runtime \<Rightarrow> ClientEnv \<Rightarrow> ResourceParams \<Rightarrow> ProviderPool \<times> 's \<Rightarrow> Item list promise" where
  "Client_items rt env params state =
     firstValueFrom (fst (itemsChanges rt env params False state)) (Some [])"

definition Client_annotations ::
  "'s Runtime \<Rightarrow> ClientEnv \<Rightarrow> ResourceParams \<Rightarrow> ProviderPool \<times> 's \<Rightarrow> Annotation list promise" where
  "Client_annotations rt env params state =
     firstValueFrom (fst (annotationsChanges rt env params False state)) (Some [])"

definition Client_items_earlier ::
  "'s Runtime \<Rightarrow> ClientEnv \<Rightarrow> ResourceParams \<Rightarrow> ProviderPool \<times> 's \<Rightarrow> Item list promise" where
  "Client_items_earlier rt env params state =
     firstValueFrom (fst (itemsChanges_earlier rt env params False state)) None"

subsection \<open>Reading a cycle\<close>

text \<open>
  Whether the credential lookup of a provider fails: the hook returns and what it
  returns fails. Whether the hook throws for a provider. The messages the facade logs
  for the providers of a list whose credential lookup fails, and the transport calls
  among the events of the facade, each with the client that made it.
\<close>

definition credentialsFail :: "ClientEnv \<Rightarrow> string \<Rightarrow> bool" where
  "credentialsFail env provider =
     (case lookupAuthInfo env provider of Returns (Failed err) \<Rightarrow> True | _ \<Rightarrow> False)"

definition hookThrows :: "ClientEnv \<Rightarrow> string \<Rightarrow> bool" where
  "hookThrows env provider =
     (case lookupAuthInfo env provider of Throws err \<Rightarrow> True | _ \<Rightarrow> False)"

definition failureLogs :: "ClientEnv \<Rightarrow> (string \<times> ProviderSettings) list \<Rightarrow> facadeEvent list" where
  "failureLogs env entries =
     concat (map (\<lambda>(provider, settings).
                    case lookupAuthInfo env provider of
                      Returns (Failed err) \<Rightarrow> [FacadeLog (creationErrorMessage provider err)]
                    | _ \<Rightarrow> [])
                 entries)"

text \<open>
  What the observable of a provider's credentials notifies first, for a hook that
  returns, and the element of the \<^verbatim>\<open>combineLatest\<close> list it is part of.
\<close>

definition authInfoInput :: "ClientEnv \<Rightarrow> string \<Rightarrow> AuthInfo option notification" where
  "authInfoInput env provider =
     (case lookupAuthInfo env provider of Returns input \<Rightarrow> input | Throws err \<Rightarrow> Done)"

definition authInfoStream ::
  "ClientEnv \<Rightarrow> string \<times> ProviderSettings \<Rightarrow>
     (string \<times> ProviderSettings) \<times> AuthInfo option notification" where
  "authInfoStream env entry = (entry, authInfoInput env (fst entry))"

definition transportCallsOf :: "facadeEvent list \<Rightarrow> (ProviderClient \<times> providerMethod) list" where
  "transportCallsOf evs =
     concat (map (\<lambda>ev. case ev of ProviderEvent client (TransportCall m) \<Rightarrow> [(client, m)] | _ \<Rightarrow> [])
                 evs)"

text \<open>
  A runtime whose providers all answer with empty lists, configurations with three and
  with two providers and the \<^verbatim>\<open>debug\<close> flag on, a host whose credential hook
  returns a failing stream for the second of the three, and a host whose credential
  hook throws for it. \<open>silent\<close> is a configuration stream that completes without a
  value.
\<close>

definition stubRuntime :: "nat Runtime" where
  "stubRuntime =
     \<lparr>rt_createTransport = (\<lambda>client. countingStub None), rt_glob = (=),
      rt_scope = (\<lambda>scope message. scope @ '': '' @ message)\<rparr>"

definition threeProviders :: ConfigurationUserInput where
  "threeProviders =
     \<lparr>enable = Some True, debug = Some True,
      providers = Some [(''https://a.example/p'', Some ''{}''),
                        (''https://b.example/p'', Some ''{}''),
                        (''https://c.example/p'', Some ''{}'')]\<rparr>"

definition twoProviders :: ConfigurationUserInput where
  "twoProviders =
     \<lparr>enable = Some True, debug = Some True,
      providers = Some [(''https://a.example/p'', Some ''{}''),
                        (''https://c.example/p'', Some ''{}'')]\<rparr>"

definition hostEnv :: "(nat \<times> ConfigurationUserInput) observable \<Rightarrow> ClientEnv" where
  "hostEnv configurations =
     \<lparr>env_configuration = (\<lambda>resource. configurations),
      env_providerBaseUri = None,
      env_authInfo = Some (\<lambda>provider. if provider = ''https://b.example/p''
                                        then Returns (Failed (Error ''no token''))
                                        else Returns (Next None)),
      env_logger = True,
      env_mock = None\<rparr>"

definition throwingHostEnv :: "(nat \<times> ConfigurationUserInput) observable \<Rightarrow> ClientEnv" where
  "throwingHostEnv configurations =
     \<lparr>env_configuration = (\<lambda>resource. configurations),
      env_providerBaseUri = None,
      env_authInfo = Some (\<lambda>provider. if provider = ''https://b.example/p''
                                        then Throws (Error ''no token'')
                                        else Returns (Next None)),
      env_logger = True,
      env_mock = None\<rparr>"

text \<open>
  The client that the facade's pool makes as its \<open>n\<close>-th for a provider without
  credentials, under either host.
\<close>

definition pooledClient :: "nat \<Rightarrow> string \<Rightarrow> ProviderClient" where
  "pooledClient n provider =
     \<lparr>objectId = n, client_providerUri = provider, client_authInfo = None,
      client_providerBaseUri = None, client_logger = True\<rparr>"

definition silent :: "(nat \<times> ConfigurationUserInput) observable" where
  "silent = \<lparr>emitted = [], ending = Completed\<rparr>"

subsection \<open>The configuration object in the host's store\<close>

text \<open>
  The configuration that the host's hook emits is an object in the host's memory, and
  the callback of the first \<^verbatim>\<open>map\<close> receives a reference to it. To say what the
  callback does to that object, objects live in a store: a configuration object holds
  its two flags and a reference to its \<^verbatim>\<open>providers\<close> object, if it has one. New
  objects are placed at the next free address.
\<close>

type_synonym address = nat

datatype jsObject =
  ConfigObject "bool option" "bool option" "address option"
| ProvidersObject "(string \<times> ProviderSettings option) list"

record store =
  objects :: "address \<Rightarrow> jsObject option"
  nextAddress :: address

definition wellFormed :: "store \<Rightarrow> bool" where
  "wellFormed st = (\<forall>a. nextAddress st \<le> a \<longrightarrow> objects st a = None)"

text \<open>The configuration that a reference denotes, read through the store.\<close>

definition readConfiguration :: "store \<Rightarrow> address \<Rightarrow> ConfigurationUserInput option" where
  "readConfiguration st a =
     (case objects st a of
        Some (ConfigObject en dbg prov) \<Rightarrow>
          (case prov of
             None \<Rightarrow> Some \<lparr>enable = en, debug = dbg, providers = None\<rparr>
           | Some p \<Rightarrow>
               (case objects st p of
                  Some (ProvidersObject entries) \<Rightarrow>
                    Some \<lparr>enable = en, debug = dbg, providers = Some entries\<rparr>
                | _ \<Rightarrow> None))
      | _ \<Rightarrow> None)"

text \<open>
  The statement \<^verbatim>\<open>if (!config.enable) { config = { ...config, providers: {} } }\<close>:
  the object literal makes a new object, the spread copies the properties of the old
  one into it, and \<^verbatim>\<open>providers\<close> is set to a new empty object. The local variable
  \<^verbatim>\<open>config\<close> then refers to the new object. Nothing is written to the old one. The
  result is the reference that \<^verbatim>\<open>config\<close> holds afterwards, and the store.
\<close>

definition gateConfigurationObject :: "store \<Rightarrow> address \<Rightarrow> address \<times> store" where
  "gateConfigurationObject st config =
     (case objects st config of
        Some (ConfigObject en dbg prov) \<Rightarrow>
          (if falsy en
           then (let copy = nextAddress st; empty = Suc copy
                 in (copy,
                     \<lparr>objects = (objects st)(copy \<mapsto> ConfigObject en dbg (Some empty),
                                              empty \<mapsto> ProvidersObject []),
                      nextAddress = Suc empty\<rparr>))
           else (config, st))
      | _ \<Rightarrow> (config, st))"

text \<open>
  The whole callback: the gate, then \<^verbatim>\<open>configurationFromUserInput\<close> on the object
  that \<^verbatim>\<open>config\<close> refers to, which only reads it.
\<close>

definition resolveConfigurationObject :: "store \<Rightarrow> address \<Rightarrow> Configuration option \<times> store" where
  "resolveConfigurationObject st config =
     (case gateConfigurationObject st config of
        (config', st') \<Rightarrow>
          (map_option configurationFromUserInput (readConfiguration st' config'), st'))"

text \<open>A store with one configuration object of the host, disabled, listing a provider.\<close>

definition hostStore :: store where
  "hostStore =
     \<lparr>objects = (\<lambda>a. None)(0 \<mapsto> ConfigObject (Some False) (Some True) (Some 1),
                           1 \<mapsto> ProvidersObject [(''https://a.example/p'', Some ''{}'')]),
      nextAddress = 2\<rparr>"

subsection \<open>Life cycle\<close>






















section \<open>Properties of the selector matcher\<close>

lemma matchContent_iff:
  "matchContent lit c \<longleftrightarrow>
     (\<forall>needle. lit = Some needle \<longrightarrow>
        (\<exists>text. c = Some text \<and> (\<exists>ps ss. text = ps @ needle @ ss)))"
  by (auto simp: matchContent_def sublist_def split: option.splits)

lemma matchPath_iff:
  "matchPath globMatch p u \<longleftrightarrow> (\<forall>g. p = Some g \<longrightarrow> globMatch g u)"
  by (simp add: matchPath_def split: option.splits)

text \<open>
  C1. For a non-empty selector array the matcher accepts a resource exactly when every
  selector of the array is satisfied by it (a conjunction over the array). A selector is
  satisfied when its path glob, if present, matches the resource's URI and its
  \<^verbatim>\<open>contentContains\<close> string, if present, occurs as a contiguous substring of the
  resource's content; a resource without content fails a selector that has a
  \<^verbatim>\<open>contentContains\<close> condition.
\<close>

theorem matchSelectors_conjunction:
  assumes "sels \<noteq> []"
  shows "matchSelectors globMatch (Some sels) r \<longleftrightarrow>
          (\<forall>s \<in> set sels.
             (\<forall>g. path s = Some g \<longrightarrow> globMatch g (uri r)) \<and>
             (\<forall>needle. contentContains s = Some needle \<longrightarrow>
                (\<exists>text. content r = Some text \<and> (\<exists>ps ss. text = ps @ needle @ ss))))"
proof -
  from assms obtain s ss where sels: "sels = s # ss"
    by (cases sels) auto
  have "matchSelectors globMatch (Some sels) r \<longleftrightarrow>
          (\<forall>sel \<in> set sels. matchSelector globMatch sel r)"
    unfolding sels by (simp add: list_all_iff)
  then show ?thesis
    by (simp add: matchSelector_def matchPath_iff matchContent_iff)
qed

theorem matchSelectors_conjunction_witness:
  "[\<lparr>path = Some ''a.go'', contentContains = None\<rparr>,
    \<lparr>path = None, contentContains = Some ''prom''\<rparr>] \<noteq> [] \<and>
   matchSelectors (=) (Some [\<lparr>path = Some ''a.go'', contentContains = None\<rparr>,
                            \<lparr>path = None, contentContains = Some ''prom''\<rparr>])
     \<lparr>uri = ''a.go'', content = Some ''import prometheus''\<rparr> \<and>
   \<not> matchSelectors (=) (Some [\<lparr>path = Some ''a.go'', contentContains = None\<rparr>,
                              \<lparr>path = None, contentContains = Some ''prom''\<rparr>])
     \<lparr>uri = ''a.go'', content = None\<rparr>"
  using matchSelectors_conjunction
          [of "[\<lparr>path = Some ''a.go'', contentContains = None\<rparr>,
                \<lparr>path = None, contentContains = Some ''prom''\<rparr>]"
              "(=)" "\<lparr>uri = ''a.go'', content = Some ''import prometheus''\<rparr>"]
  by (simp add: matchSelector_def matchPath_def matchContent_def sublist_code(3))

section \<open>Properties of the provider connection pool\<close>

lemma poolOk_create: "poolOk createProviderPool"
  by (simp add: poolOk_def createProviderPool_def)

lemma clockReading_fresh: "now < fst (clockReading c now) + ttlResolution"
  by (simp add: clockReading_def ttlResolution_def)

lemma clockReading_upTo:
  "cachedNow c \<le> t \<Longrightarrow> now \<le> t \<Longrightarrow>
   fst (clockReading c now) \<le> t \<and> cachedNow (snd (clockReading c now)) \<le> t"
  by (simp add: clockReading_def)

lemma clockReading_entries: "lru_entries (snd (clockReading c now)) = lru_entries c"
  by (simp add: clockReading_def)

text \<open>
  The two ways \<^verbatim>\<open>getOrCreate\<close> can go: the cache holds an entry that the test does
  not find stale, and its client is returned; or it holds none, or one the test finds
  stale, and a client is made and stored under the key.
\<close>

lemma getOrCreate_cases:
  obtains (hit) e c where "lru_entries (cache pool) (cacheKey key) = Some e"
            "entry_start e = 0 \<or> \<not> isStale (fst (clockReading (cache pool) now)) e"
            "getOrCreate pool now key env = (entry_value e, pool\<lparr>cache := c\<rparr>)"
            "lru_entries c = lru_entries (cache pool)"
            "c = cache pool \<or> c = snd (clockReading (cache pool) now)"
  | (miss) c where
            "\<forall>e. lru_entries (cache pool) (cacheKey key) = Some e \<longrightarrow>
                 isStale (fst (clockReading (cache pool) now)) e"
            "getOrCreate pool now key env =
               (createProviderClient (created pool) (providerUri key) (authInfo key) env,
                \<lparr>cache = c\<lparr>lru_entries := (lru_entries (cache pool))(cacheKey key \<mapsto>
                    \<lparr>entry_value = createProviderClient (created pool) (providerUri key) (authInfo key) env,
                      entry_start = now\<rparr>)\<rparr>,
                 created = Suc (created pool)\<rparr>)"
            "c = cache pool \<or> c = snd (clockReading (cache pool) now)"
proof (cases "lru_entries (cache pool) (cacheKey key)")
  case None
  then have "getOrCreate pool now key env =
               (createProviderClient (created pool) (providerUri key) (authInfo key) env,
                \<lparr>cache = (cache pool)\<lparr>lru_entries := (lru_entries (cache pool))(cacheKey key \<mapsto>
                    \<lparr>entry_value = createProviderClient (created pool) (providerUri key) (authInfo key) env,
                      entry_start = now\<rparr>)\<rparr>,
                 created = Suc (created pool)\<rparr>)"
    by (simp add: getOrCreate_def LRUCache_get_def LRUCache_set_def Let_def)
  with None show thesis by (intro miss[of "cache pool"]) auto
next
  case (Some e)
  show thesis
  proof (cases "entry_start e = 0")
    case True
    with Some have "getOrCreate pool now key env = (entry_value e, pool\<lparr>cache := cache pool\<rparr>)"
      by (simp add: getOrCreate_def LRUCache_get_def)
    with Some True show thesis by (intro hit[of e "cache pool"]) auto
  next
    case False
    obtain reading c' where clock: "clockReading (cache pool) now = (reading, c')"
      by (cases "clockReading (cache pool) now")
    from clock have ent: "lru_entries c' = lru_entries (cache pool)"
      using clockReading_entries[of "cache pool" now] by simp
    show thesis
    proof (cases "isStale reading e")
      case True
      with Some False clock ent have "getOrCreate pool now key env =
               (createProviderClient (created pool) (providerUri key) (authInfo key) env,
                \<lparr>cache = c'\<lparr>lru_entries := (lru_entries (cache pool))(cacheKey key \<mapsto>
                    \<lparr>entry_value = createProviderClient (created pool) (providerUri key) (authInfo key) env,
                      entry_start = now\<rparr>)\<rparr>,
                 created = Suc (created pool)\<rparr>)"
        by (simp add: getOrCreate_def LRUCache_get_def LRUCache_set_def Let_def)
      with Some True clock show thesis by (intro miss[of c']) auto
    next
      case stale: False
      with Some False clock have "getOrCreate pool now key env = (entry_value e, pool\<lparr>cache := c'\<rparr>)"
        by (simp add: getOrCreate_def LRUCache_get_def)
      with Some stale clock ent show thesis by (intro hit[of e c']) auto
    qed
  qed
qed

lemma purge_cases:
  obtains (kept) c where "LRUCache_purge (cache pool) now k = c"
            "lru_entries c = lru_entries (cache pool)"
            "c = cache pool \<or> c = snd (clockReading (cache pool) now)"
  | (removed) e c where "lru_entries (cache pool) k = Some e"
            "isStale (fst (clockReading (cache pool) now)) e"
            "LRUCache_purge (cache pool) now k = c\<lparr>lru_entries := (lru_entries (cache pool))(k := None)\<rparr>"
            "c = snd (clockReading (cache pool) now)"
proof (cases "lru_entries (cache pool) k")
  case None
  then have "LRUCache_purge (cache pool) now k = cache pool"
    by (simp add: LRUCache_purge_def LRUCache_get_def)
  then show thesis by (intro kept[of "cache pool"]) auto
next
  case (Some e)
  show thesis
  proof (cases "entry_start e = 0")
    case True
    with Some have "LRUCache_purge (cache pool) now k = cache pool"
      by (simp add: LRUCache_purge_def LRUCache_get_def)
    then show thesis by (intro kept[of "cache pool"]) auto
  next
    case False
    obtain reading c' where clock: "clockReading (cache pool) now = (reading, c')"
      by (cases "clockReading (cache pool) now")
    from clock have ent: "lru_entries c' = lru_entries (cache pool)"
      using clockReading_entries[of "cache pool" now] by simp
    show thesis
    proof (cases "isStale reading e")
      case True
      with Some False clock ent
      have "LRUCache_purge (cache pool) now k = c'\<lparr>lru_entries := (lru_entries (cache pool))(k := None)\<rparr>"
        by (simp add: LRUCache_purge_def LRUCache_get_def)
      with Some True clock show thesis by (intro removed[of e c']) auto
    next
      case stale: False
      with Some False clock have "LRUCache_purge (cache pool) now k = c'"
        by (simp add: LRUCache_purge_def LRUCache_get_def)
      with clock ent show thesis by (intro kept[of c']) auto
    qed
  qed
qed

lemma poolOk_getOrCreate:
  assumes "poolOk pool"
  shows "poolOk (snd (getOrCreate pool now key env))"
proof (cases rule: getOrCreate_cases[where pool=pool and now=now and key=key and env=env])
  case (hit e c)
  with assms show ?thesis by (simp add: poolOk_def)
next
  case (miss c)
  with assms show ?thesis
    by (auto simp: poolOk_def createProviderClient_def less_Suc_eq)
qed

lemma poolOk_step: "poolOk pool \<Longrightarrow> poolOk (poolStep pool op)"
proof (cases op)
  case (Call now key env)
  assume "poolOk pool"
  with Call show ?thesis by (simp add: poolOk_getOrCreate)
next
  case (Purge now k)
  assume ok: "poolOk pool"
  show ?thesis
  proof (cases rule: purge_cases[where pool=pool and now=now and k=k])
    case (kept c)
    with ok Purge show ?thesis by (simp add: poolOk_def)
  next
    case (removed e c)
    with ok Purge show ?thesis by (auto simp: poolOk_def)
  qed
qed

lemma poolOk_run: "poolOk pool \<Longrightarrow> poolOk (poolRun pool ops)"
  unfolding poolRun_def
  by (induction ops arbitrary: pool) (simp_all add: poolOk_step)

lemma clockUpTo_create: "clockUpTo t createProviderPool"
  by (simp add: clockUpTo_def createProviderPool_def)

lemma clockUpTo_getOrCreate:
  assumes "clockUpTo t pool" and "now \<le> t"
  shows "clockUpTo t (snd (getOrCreate pool now key env))"
proof (cases rule: getOrCreate_cases[where pool=pool and now=now and key=key and env=env])
  case (hit e c)
  with assms clockReading_upTo[of "cache pool" t now] show ?thesis
    by (auto simp: clockUpTo_def)
next
  case (miss c)
  with assms clockReading_upTo[of "cache pool" t now] show ?thesis
    by (auto simp: clockUpTo_def)
qed

lemma clockUpTo_step:
  assumes "clockUpTo t pool" and "opTime op \<le> t"
  shows "clockUpTo t (poolStep pool op)"
proof (cases op)
  case (Call now key env)
  with assms show ?thesis by (simp add: clockUpTo_getOrCreate)
next
  case (Purge now k)
  show ?thesis
  proof (cases rule: purge_cases[where pool=pool and now=now and k=k])
    case (kept c)
    with assms Purge clockReading_upTo[of "cache pool" t now] show ?thesis
      by (auto simp: clockUpTo_def)
  next
    case (removed e c)
    with assms Purge clockReading_upTo[of "cache pool" t now] show ?thesis
      by (auto simp: clockUpTo_def)
  qed
qed

lemma clockUpTo_run:
  assumes "clockUpTo t pool" and "\<forall>op \<in> set ops. opTime op \<le> t"
  shows "clockUpTo t (poolRun pool ops)"
  using assms unfolding poolRun_def
  by (induction ops arbitrary: pool) (simp_all add: clockUpTo_step)

lemma getOrCreate_entry:
  assumes "getOrCreate pool now key env = (client, pool')"
  shows "\<exists>e. lru_entries (cache pool') (cacheKey key) = Some e \<and> entry_value e = client \<and>
             (created pool' = Suc (created pool) \<longrightarrow> entry_start e = now)"
proof (cases rule: getOrCreate_cases[where pool=pool and now=now and key=key and env=env])
  case (hit e c)
  with assms show ?thesis by auto
next
  case (miss c)
  with assms show ?thesis by auto
qed

text \<open>
  An entry that is at most \<open>ttl\<close> old at \<open>t2\<close> survives every call and purge up to
  \<open>t2\<close>, provided the kept clock reading is not later than \<open>t2\<close> either.
\<close>

lemma stale_after: "isStale reading e \<Longrightarrow> reading \<le> t2 \<Longrightarrow> entry_start e + ttl < t2"
  by (simp add: isStale_def)

lemma step_keeps_live:
  assumes "lru_entries (cache pool) k = Some e" and "t2 \<le> entry_start e + ttl"
    and "opTime op \<le> t2" and "clockUpTo t2 pool"
  shows "lru_entries (cache (poolStep pool op)) k = Some e"
proof (cases op)
  case (Purge now k')
  from assms(3,4) Purge clockReading_upTo[of "cache pool" t2 now]
  have upTo: "fst (clockReading (cache pool) now) \<le> t2"
    by (simp add: clockUpTo_def)
  show ?thesis
  proof (cases rule: purge_cases[where pool=pool and now=now and k=k'])
    case (kept c)
    with Purge assms(1) show ?thesis by simp
  next
    case (removed e' c)
    from stale_after[OF removed(2) upTo] assms(2) have "e' \<noteq> e" by auto
    with removed(1) assms(1) have "k' \<noteq> k" by auto
    with removed Purge assms(1) show ?thesis by simp
  qed
next
  case (Call now key env)
  from assms(3,4) Call clockReading_upTo[of "cache pool" t2 now]
  have upTo: "fst (clockReading (cache pool) now) \<le> t2"
    by (simp add: clockUpTo_def)
  show ?thesis
  proof (cases rule: getOrCreate_cases[where pool=pool and now=now and key=key and env=env])
    case (hit e' c)
    with Call assms(1) show ?thesis by simp
  next
    case (miss c)
    have "cacheKey key \<noteq> k"
    proof
      assume "cacheKey key = k"
      with miss(1) assms(1) have "isStale (fst (clockReading (cache pool) now)) e" by simp
      from stale_after[OF this upTo] assms(2) show False by simp
    qed
    with miss Call assms(1) show ?thesis by simp
  qed
qed

lemma run_keeps_live:
  assumes "lru_entries (cache pool) k = Some e" and "t2 \<le> entry_start e + ttl"
    and "\<forall>op \<in> set ops. opTime op \<le> t2" and "clockUpTo t2 pool"
  shows "lru_entries (cache (poolRun pool ops)) k = Some e \<and> clockUpTo t2 (poolRun pool ops)"
  using assms unfolding poolRun_def
proof (induction ops arbitrary: pool)
  case Nil
  then show ?case by simp
next
  case (Cons op ops)
  from Cons.prems have "lru_entries (cache (poolStep pool op)) k = Some e"
    and "clockUpTo t2 (poolStep pool op)"
    by (simp_all add: step_keeps_live clockUpTo_step)
  from Cons.IH[OF this(1) Cons.prems(2) _ this(2)] Cons.prems(3) show ?case by simp
qed

lemma laterEntry_step:
  assumes "laterEntry n k e pool"
  shows "laterEntry n k e (poolStep pool op)"
proof (cases op)
  case (Purge now k')
  show ?thesis
  proof (cases rule: purge_cases[where pool=pool and now=now and k=k'])
    case (kept c)
    with Purge assms show ?thesis by (simp add: laterEntry_def)
  next
    case (removed e' c)
    with Purge assms show ?thesis by (auto simp: laterEntry_def)
  qed
next
  case (Call now key env)
  show ?thesis
  proof (cases rule: getOrCreate_cases[where pool=pool and now=now and key=key and env=env])
    case (hit e' c)
    with Call assms show ?thesis by (simp add: laterEntry_def)
  next
    case (miss c)
    with Call assms show ?thesis
      by (auto simp: laterEntry_def createProviderClient_def)
  qed
qed

lemma laterEntry_run: "laterEntry n k e pool \<Longrightarrow> laterEntry n k e (poolRun pool ops)"
  unfolding poolRun_def
  by (induction ops arbitrary: pool) (simp_all add: laterEntry_step)

lemma purge_only_step:
  assumes "lru_entries (cache pool) k = None \<or> lru_entries (cache pool) k = Some e"
  shows "created (poolStep pool (Purge now k')) = created pool \<and>
         (lru_entries (cache (poolStep pool (Purge now k'))) k = None \<or>
          lru_entries (cache (poolStep pool (Purge now k'))) k = Some e)"
proof (cases rule: purge_cases[where pool=pool and now=now and k=k'])
  case (kept c)
  with assms show ?thesis by simp
next
  case (removed e' c)
  with assms show ?thesis by auto
qed

lemma purge_only_run:
  assumes "lru_entries (cache pool) k = None \<or> lru_entries (cache pool) k = Some e"
    and "\<forall>op \<in> set ops. \<exists>now k'. op = Purge now k'"
  shows "created (poolRun pool ops) = created pool \<and>
         (lru_entries (cache (poolRun pool ops)) k = None \<or> lru_entries (cache (poolRun pool ops)) k = Some e)"
  using assms unfolding poolRun_def
proof (induction ops arbitrary: pool)
  case Nil
  then show ?case by simp
next
  case (Cons op ops)
  from Cons.prems(2) obtain now k' where op: "op = Purge now k'" by auto
  from purge_only_step[OF Cons.prems(1), of now k']
  have "lru_entries (cache (poolStep pool op)) k = None \<or> lru_entries (cache (poolStep pool op)) k = Some e"
    and c: "created (poolStep pool op) = created pool"
    unfolding op by auto
  from Cons.IH[OF this(1)] Cons.prems(2) c show ?case by simp
qed

text \<open>
  An entry with a non-zero start that is at least \<open>ttl + ttlResolution\<close> old is found
  stale by whatever reading of the clock \<^verbatim>\<open>get\<close> uses.
\<close>

lemma stale_beyond_resolution:
  assumes "entry_start e \<noteq> 0" and "entry_start e + ttl + ttlResolution \<le> now"
  shows "isStale (fst (clockReading c now)) e"
  using assms clockReading_fresh[of now c] by (simp add: isStale_def)

text \<open>
  C2, as amended. Take any pool reached from \<^verbatim>\<open>createProviderPool()\<close>, a call of
  \<^verbatim>\<open>getOrCreate\<close> at time \<open>t1\<close>, any further calls and purges, and a second call
  at time \<open>t2\<close> with a key that has the same JSON text as the first (the same provider
  URI and the same credentials with their headers in the same order). After the first
  call the cache holds an entry \<open>e\<close> for the key whose value is the client returned,
  written at \<open>t1\<close> if the first call made the client. If \<open>e\<close> is at most \<open>ttl\<close>
  milliseconds old at \<open>t2\<close> and nothing before the second call happened later than
  \<open>t2\<close>, the second call returns the very same client object. If \<open>e\<close>, written at a
  non-zero time, is at least \<open>ttl + ttlResolution\<close> milliseconds old at \<open>t2\<close>, the
  second call returns an object made after the first call returned, so a different one;
  when only purges happened in between, it is made by the second call itself. For an
  entry whose age is in the second in between, the kept reading of the clock decides.
\<close>

theorem pool_entry_reuse:
  assumes key: "cacheKey key1 = cacheKey key2"
    and reach: "pool = poolRun createProviderPool earlier"
    and first: "getOrCreate pool t1 key1 env1 = (client1, pool1)"
    and entry: "lru_entries (cache pool1) (cacheKey key1) = Some e"
    and between: "pool2 = poolRun pool1 between"
    and second: "getOrCreate pool2 t2 key2 env2 = (client2, pool3)"
  shows "entry_value e = client1 \<and>
         (created pool1 = Suc (created pool) \<longrightarrow> entry_start e = t1) \<and>
         (t2 \<le> entry_start e + ttl \<and> t1 \<le> t2 \<and>
          (\<forall>op \<in> set (earlier @ between). opTime op \<le> t2) \<longrightarrow>
            client2 = client1 \<and> objectId client2 = objectId client1) \<and>
         (entry_start e \<noteq> 0 \<and> entry_start e + ttl + ttlResolution \<le> t2 \<longrightarrow>
            objectId client1 < created pool1 \<and> created pool1 \<le> objectId client2 \<and>
            objectId client2 \<noteq> objectId client1) \<and>
         (entry_start e \<noteq> 0 \<and> entry_start e + ttl + ttlResolution \<le> t2 \<and>
          (\<forall>op \<in> set between. \<exists>now k. op = Purge now k) \<longrightarrow>
            objectId client2 = created pool2 \<and> created pool3 = Suc (created pool2))"
proof -
  from getOrCreate_entry[OF first] entry
  have e: "entry_value e = client1"
    "created pool1 = Suc (created pool) \<longrightarrow> entry_start e = t1"
    by auto
  have ok1: "poolOk pool1"
    using poolOk_getOrCreate[OF poolOk_run[OF poolOk_create], of earlier t1 key1 env1] first reach
    by simp
  with entry e(1) have id1: "objectId client1 < created pool1"
    by (auto simp: poolOk_def)
  have live: "client2 = client1"
    if fresh: "t2 \<le> entry_start e + ttl" and "t1 \<le> t2"
      and "\<forall>op \<in> set (earlier @ between). opTime op \<le> t2"
  proof -
    from that(3) have before: "\<forall>op \<in> set earlier. opTime op \<le> t2"
      and mid: "\<forall>op \<in> set between. opTime op \<le> t2" by auto
    from clockUpTo_getOrCreate[OF clockUpTo_run[OF clockUpTo_create before] that(2), of key1 env1]
      first reach
    have "clockUpTo t2 pool1" by simp
    from run_keeps_live[OF entry fresh mid this] between key
    have held: "lru_entries (cache pool2) (cacheKey key2) = Some e" and upTo: "clockUpTo t2 pool2"
      by simp_all
    from upTo clockReading_upTo[of "cache pool2" t2 t2]
    have "fst (clockReading (cache pool2) t2) \<le> t2" by (simp add: clockUpTo_def)
    with fresh have "\<not> isStale (fst (clockReading (cache pool2) t2)) e"
      by (simp add: isStale_def)
    with held second e(1) show ?thesis
      by (cases rule: getOrCreate_cases[where pool=pool2 and now=t2 and key=key2 and env=env2]) auto
  qed
  have later: "laterEntry (created pool1) (cacheKey key2) e pool2"
    unfolding between
    by (rule laterEntry_run) (simp add: laterEntry_def entry key[symmetric])
  have expired: "created pool1 \<le> objectId client2"
    if "entry_start e \<noteq> 0" and "entry_start e + ttl + ttlResolution \<le> t2"
  proof (cases rule: getOrCreate_cases[where pool=pool2 and now=t2 and key=key2 and env=env2])
    case (hit e' c)
    from stale_beyond_resolution[OF that] hit(2) that(1) have "e' \<noteq> e" by auto
    with later hit second show ?thesis by (auto simp: laterEntry_def)
  next
    case (miss c)
    with later second show ?thesis
      by (auto simp: laterEntry_def createProviderClient_def)
  qed
  have rebuilt: "objectId client2 = created pool2 \<and> created pool3 = Suc (created pool2)"
    if "entry_start e \<noteq> 0" and "entry_start e + ttl + ttlResolution \<le> t2"
      and "\<forall>op \<in> set between. \<exists>now k. op = Purge now k"
  proof (cases rule: getOrCreate_cases[where pool=pool2 and now=t2 and key=key2 and env=env2])
    case (hit e' c)
    from purge_only_run[of pool1 "cacheKey key1" e between] entry that(3) between key
    have "lru_entries (cache pool2) (cacheKey key2) = None \<or> lru_entries (cache pool2) (cacheKey key2) = Some e"
      by simp
    with hit stale_beyond_resolution[OF that(1,2), of "cache pool2"] that(1) show ?thesis by auto
  next
    case (miss c)
    with second show ?thesis by (auto simp: createProviderClient_def)
  qed
  from e live id1 expired rebuilt show ?thesis by auto
qed

lemma first_call:
  "getOrCreate createProviderPool t key env =
     (createProviderClient 0 (providerUri key) (authInfo key) env,
      \<lparr>cache = \<lparr>lru_entries = (\<lambda>k. None)(cacheKey key \<mapsto>
          \<lparr>entry_value = createProviderClient 0 (providerUri key) (authInfo key) env,
            entry_start = t\<rparr>), cachedNow = 0\<rparr>,
       created = Suc 0\<rparr>)"
  by (simp add: getOrCreate_def createProviderPool_def LRUCache_get_def LRUCache_set_def Let_def)

theorem pool_entry_reuse_witness:
  "fst (getOrCreate (poolRun (snd (getOrCreate createProviderPool 1000 keyNoAuth envPlain))
          [Purge 2000 (cacheKey keyNoAuth), Call 3000 keyTokenFirst envPlain]) 301000 keyNoAuth envPlain)
     = fst (getOrCreate createProviderPool 1000 keyNoAuth envPlain) \<and>
   objectId (fst (getOrCreate (poolRun (snd (getOrCreate createProviderPool 1000 keyNoAuth envPlain))
          [Purge 301500 (cacheKey keyNoAuth)]) 302000 keyNoAuth envPlain)) = 1 \<and>
   objectId (fst (getOrCreate createProviderPool 1000 keyNoAuth envPlain)) = 0"
proof -
  let ?r1 = "getOrCreate createProviderPool 1000 keyNoAuth envPlain"
  let ?e = "\<lparr>entry_value = fst ?r1, entry_start = 1000\<rparr>"
  let ?live = "[Purge 2000 (cacheKey keyNoAuth), Call 3000 keyTokenFirst envPlain]"
  let ?late = "[Purge 301500 (cacheKey keyNoAuth)]"
  have entry: "lru_entries (cache (snd ?r1)) (cacheKey keyNoAuth) = Some ?e"
    by (simp add: first_call)
  have made: "created (snd ?r1) = Suc 0"
    by (simp add: first_call)
  have within: "(301000::nat) \<le> entry_start ?e + ttl \<and> (1000::nat) \<le> 301000 \<and>
      (\<forall>op \<in> set ([] @ ?live). opTime op \<le> 301000)"
    by (simp add: ttl_def)
  have after: "entry_start ?e \<noteq> 0 \<and> entry_start ?e + ttl + ttlResolution \<le> 302000 \<and>
      (\<forall>op \<in> set ?late. \<exists>now k. op = Purge now k)"
    by (simp add: ttl_def ttlResolution_def)
  from purge_only_run[of "snd ?r1" "cacheKey keyNoAuth" ?e ?late] entry made
  have made': "created (poolRun (snd ?r1) ?late) = Suc 0"
    by simp
  from pool_entry_reuse[of keyNoAuth keyNoAuth createProviderPool "[]" 1000 envPlain "fst ?r1" "snd ?r1"
      ?e "poolRun (snd ?r1) ?live" ?live 301000 envPlain
      "fst (getOrCreate (poolRun (snd ?r1) ?live) 301000 keyNoAuth envPlain)"
      "snd (getOrCreate (poolRun (snd ?r1) ?live) 301000 keyNoAuth envPlain)"] entry within
  have same: "fst (getOrCreate (poolRun (snd ?r1) ?live) 301000 keyNoAuth envPlain) = fst ?r1"
    by (simp add: poolRun_def)
  from pool_entry_reuse[of keyNoAuth keyNoAuth createProviderPool "[]" 1000 envPlain "fst ?r1" "snd ?r1"
      ?e "poolRun (snd ?r1) ?late" ?late 302000 envPlain
      "fst (getOrCreate (poolRun (snd ?r1) ?late) 302000 keyNoAuth envPlain)"
      "snd (getOrCreate (poolRun (snd ?r1) ?late) 302000 keyNoAuth envPlain)"] entry after made'
  have new: "objectId (fst (getOrCreate (poolRun (snd ?r1) ?late) 302000 keyNoAuth envPlain)) = 1"
    by (simp add: poolRun_def)
  have "objectId (fst ?r1) = 0"
    by (simp add: first_call createProviderClient_def)
  with same new show ?thesis by simp
qed

lemma cacheKey_order: "cacheKey keyOrgFirst \<noteq> cacheKey keyTokenFirst"
  by (simp add: cacheKey_def keyOrgFirst_def keyTokenFirst_def jsonObject_def jsonOptional_def
      jsonAuthInfo_def jsonHeaders_def jsonProperty_def quoteJSONString_def quoteChar_def)

text \<open>
  C2 as stated fails in two ways. For structurally equal keys whose headers are
  enumerated in a different order: the two keys below carry the same provider URI and
  the same set of headers, the second call comes one millisecond after the first, and
  it returns a second client object. And just after the time-to-live: a client is
  stored at 1000, a call at 300900 reads the clock and keeps the reading, and a call
  at 301500, more than \<open>ttl\<close> after the write, is tested against the kept reading and
  still gets the first client.
\<close>

theorem pool_structural_key_counterexample:
  "structurallyEqual keyTokenFirst keyOrgFirst \<and> (1001::nat) \<le> 1000 + ttl \<and>
   objectId (fst (getOrCreate (snd (getOrCreate createProviderPool 1000 keyTokenFirst envPlain)) 1001
                    keyOrgFirst envPlain))
     \<noteq> objectId (fst (getOrCreate createProviderPool 1000 keyTokenFirst envPlain)) \<and>
   1000 + ttl < (301500::nat) \<and>
   fst (getOrCreate (poolRun (snd (getOrCreate createProviderPool 1000 keyNoAuth envPlain))
          [Call 300900 keyNoAuth envPlain]) 301500 keyNoAuth envPlain)
     = fst (getOrCreate createProviderPool 1000 keyNoAuth envPlain)"
proof -
  have "structurallyEqual keyTokenFirst keyOrgFirst"
    by (auto simp: structurallyEqual_def sameHeaders_def keyTokenFirst_def keyOrgFirst_def)
  moreover have "(1001::nat) \<le> 1000 + ttl" "1000 + ttl < (301500::nat)" by (simp_all add: ttl_def)
  moreover have "objectId (fst (getOrCreate (snd (getOrCreate createProviderPool 1000 keyTokenFirst envPlain)) 1001
                    keyOrgFirst envPlain)) = 1"
    using cacheKey_order unfolding first_call snd_conv
    by (simp add: getOrCreate_def LRUCache_get_def LRUCache_set_def
        createProviderClient_def Let_def)
  moreover have "objectId (fst (getOrCreate createProviderPool 1000 keyTokenFirst envPlain)) = 0"
    by (simp add: first_call createProviderClient_def)
  moreover have "fst (getOrCreate (poolRun (snd (getOrCreate createProviderPool 1000 keyNoAuth envPlain))
          [Call 300900 keyNoAuth envPlain]) 301500 keyNoAuth envPlain)
     = fst (getOrCreate createProviderPool 1000 keyNoAuth envPlain)"
    unfolding first_call snd_conv fst_conv poolRun_def
    by (simp add: getOrCreate_def LRUCache_get_def LRUCache_set_def clockReading_def isStale_def
        ttl_def ttlResolution_def Let_def)
  ultimately show ?thesis by simp
qed
section \<open>Properties of the provider client\<close>

lemma transportCalls_simps:
  "transportCalls [] = []"
  "transportCalls (TransportCall m # evs) = m # transportCalls evs"
  "transportCalls (LoggerCall message # evs) = transportCalls evs"
  "transportCalls (xs @ ys) = transportCalls xs @ transportCalls ys"
  "transportCalls (optionalCall logger message) = []"
  by (simp_all add: transportCalls_def optionalCall_def)





lemma optionalLoggerCall_simps:
  "optionalLoggerCall None message s = (None, s, [])"
  "optionalLoggerCall (Some call) (Inr text) s =
     (fst (call text s), snd (call text s), [LoggerCall text])"
  "optionalLoggerCall (Some call) (Inl thrown) s = (Some thrown, s, [])"
  by (simp_all add: optionalLoggerCall_def split: prod.splits)

lemma catchBlock_returning:
  "logger = None \<or> (\<exists>call. logger = Some call \<and> (\<forall>message s. call message s = (None, s))) \<Longrightarrow>
     catchBlock logger what err s before =
       (Rejected err, s, before @ optionalCall (logger \<noteq> None) (what @ errorText err))"
  by (auto simp: catchBlock_def optionalLoggerCall_def optionalCall_def)

text \<open>
  With a logger whose calls all return and leave the state alone, and capabilities that
  \<^verbatim>\<open>JSON.stringify\<close> turns into their JSON text, the two methods do what the methods
  with a logger that is a mere sink do.
\<close>

lemma items_returning_logger:
  assumes "logger = None \<or> (\<exists>call. logger = Some call \<and> (\<forall>message s. call message s = (None, s)))"
  shows "createProviderClient_items createTransport logger params settings s
           = ProviderClient_items (createTransport logger) (logger \<noteq> None) params settings s"
  by (simp add: createProviderClient_items_def ProviderClient_items_def
      catchBlock_returning[OF assms] split: prod.splits sum.splits)

lemma annotations_returning_logger:
  assumes quiet: "logger = None \<or>
                  (\<exists>call. logger = Some call \<and> (\<forall>message s. call message s = (None, s)))"
    and json: "\<forall>capabilities. stringify capabilities = Inr (jsonCapabilities capabilities)"
  shows "createProviderClient_annotations globMatch createTransport stringify logger params settings s
           = ProviderClient_annotations globMatch (createTransport logger) (logger \<noteq> None)
               params settings s"
proof (cases logger)
  case None
  then show ?thesis
    by (simp add: createProviderClient_annotations_def ProviderClient_annotations_def Let_def
        optionalLoggerCall_simps catchBlock_returning optionalCall_def
        split: prod.splits sum.splits)
next
  case (Some call)
  with quiet have ret: "\<And>message s. call message s = (None, s)" by auto
  have c: "\<And>what err s before. catchBlock (Some call) what err s before =
       (Rejected err, s, before @ [LoggerCall (what @ errorText err)])"
    by (simp add: catchBlock_def optionalLoggerCall_simps ret)
  from Some show ?thesis
    by (simp add: createProviderClient_annotations_def ProviderClient_annotations_def Let_def
        optionalLoggerCall_simps c ret json optionalCall_def
        split: prod.splits sum.splits)
qed

text \<open>
  C9, as amended. Take a logger whose every call returns and leaves the state behind
  the transport alone, a \<^verbatim>\<open>createTransport\<close> that makes the same transport with that
  logger as with none, and capabilities that \<^verbatim>\<open>JSON.stringify\<close> can serialise. Then
  for every parameters, settings and starting state, \<^verbatim>\<open>items\<close> and
  \<^verbatim>\<open>annotations\<close> settle with the same value or the same failure, leave the same
  state behind the transport and make the same transport calls with the logger as
  without one.
\<close>

theorem returning_logger_does_not_alter_result:
  assumes returns: "\<forall>message s. logger message s = (None, s)"
    and same: "createTransport (Some logger) = createTransport None"
    and serial: "\<forall>capabilities. \<exists>text. stringify capabilities = Inr text"
  shows "fst (createProviderClient_items createTransport (Some logger) params settings s)
           = fst (createProviderClient_items createTransport None params settings s) \<and>
         fst (snd (createProviderClient_items createTransport (Some logger) params settings s))
           = fst (snd (createProviderClient_items createTransport None params settings s)) \<and>
         transportCalls (snd (snd (createProviderClient_items createTransport (Some logger) params settings s)))
           = transportCalls (snd (snd (createProviderClient_items createTransport None params settings s))) \<and>
         fst (createProviderClient_annotations globMatch createTransport stringify (Some logger)
                params settings s)
           = fst (createProviderClient_annotations globMatch createTransport stringify None
                    params settings s) \<and>
         fst (snd (createProviderClient_annotations globMatch createTransport stringify (Some logger)
                params settings s))
           = fst (snd (createProviderClient_annotations globMatch createTransport stringify None
                    params settings s)) \<and>
         transportCalls (snd (snd (createProviderClient_annotations globMatch createTransport stringify
                (Some logger) params settings s)))
           = transportCalls (snd (snd (createProviderClient_annotations globMatch createTransport
                stringify None params settings s)))"
proof -
  have c: "\<And>l what err s before. l = None \<or> l = Some logger \<Longrightarrow>
      fst (catchBlock l what err s before :: 'b promise \<times> 'a \<times> event list) = Rejected err \<and>
      fst (snd (catchBlock l what err s before :: 'b promise \<times> 'a \<times> event list)) = s \<and>
      transportCalls (snd (snd (catchBlock l what err s before :: 'b promise \<times> 'a \<times> event list)))
        = transportCalls before"
    using returns
    by (auto simp: catchBlock_def optionalLoggerCall_def transportCalls_def)
  have items: "fst (createProviderClient_items createTransport (Some logger) params settings s)
           = fst (createProviderClient_items createTransport None params settings s) \<and>
         fst (snd (createProviderClient_items createTransport (Some logger) params settings s))
           = fst (snd (createProviderClient_items createTransport None params settings s)) \<and>
         transportCalls (snd (snd (createProviderClient_items createTransport (Some logger) params settings s)))
           = transportCalls (snd (snd (createProviderClient_items createTransport None params settings s)))"
    by (simp add: createProviderClient_items_def same c split: prod.splits sum.splits)
  have annotations:
    "fst (createProviderClient_annotations globMatch createTransport stringify (Some logger)
                params settings s)
           = fst (createProviderClient_annotations globMatch createTransport stringify None
                    params settings s) \<and>
         fst (snd (createProviderClient_annotations globMatch createTransport stringify (Some logger)
                params settings s))
           = fst (snd (createProviderClient_annotations globMatch createTransport stringify None
                    params settings s)) \<and>
         transportCalls (snd (snd (createProviderClient_annotations globMatch createTransport stringify
                (Some logger) params settings s)))
           = transportCalls (snd (snd (createProviderClient_annotations globMatch createTransport
                stringify None params settings s)))"
  proof (cases "transport_capabilities (createTransport None) settings s")
    case (Pair outcome s1)
    show ?thesis
    proof (cases outcome)
      case (Inl err)
      with Pair show ?thesis
        using returns
        by (simp add: createProviderClient_annotations_def optionalLoggerCall_simps same c
            transportCalls_simps)
    next
      case (Inr capabilities)
      from serial obtain rendered where rendered: "stringify capabilities = Inr rendered" by blast
      from Pair Inr rendered show ?thesis
        using returns
        by (simp add: createProviderClient_annotations_def optionalLoggerCall_simps same c
            transportCalls_simps split: prod.splits sum.splits)
    qed
  qed
  from items annotations show ?thesis by simp
qed

theorem returning_logger_does_not_alter_result_witness:
  "fst (createProviderClient_items (\<lambda>logger. failingStub) (Some returningLogger) goFile ''{}'' 0)
     = Rejected (Error ''itemsThrow'') \<and>
   fst (createProviderClient_items (\<lambda>logger. failingStub) None goFile ''{}'' 0)
     = Rejected (Error ''itemsThrow'') \<and>
   snd (snd (createProviderClient_items (\<lambda>logger. failingStub) (Some returningLogger) goFile ''{}'' 0))
     = [TransportCall Items, LoggerCall ''failed to get items: Error: itemsThrow''] \<and>
   snd (snd (createProviderClient_items (\<lambda>logger. failingStub) None goFile ''{}'' 0))
     = [TransportCall Items]"
proof -
  have returns: "\<forall>message s. returningLogger message s = (None, s)"
    by (simp add: returningLogger_def)
  have same: "(\<lambda>logger. failingStub) (Some returningLogger) = (\<lambda>logger. failingStub) None"
    by simp
  have serial: "\<forall>capabilities. \<exists>text. (Inr \<circ> jsonCapabilities) capabilities = Inr text"
    by simp
  have none: "createProviderClient_items (\<lambda>logger. failingStub) None goFile ''{}'' 0
      = (Rejected (Error ''itemsThrow''), 0, [TransportCall Items])"
    by (simp add: createProviderClient_items_def failingStub_def catchBlock_def
        optionalLoggerCall_simps)
  have logged: "snd (snd (createProviderClient_items (\<lambda>logger. failingStub) (Some returningLogger)
      goFile ''{}'' 0)) = [TransportCall Items, LoggerCall ''failed to get items: Error: itemsThrow'']"
    by (simp add: createProviderClient_items_def failingStub_def catchBlock_def
        optionalLoggerCall_simps returningLogger_def errorText_def)
  from returning_logger_does_not_alter_result[OF returns same serial, of goFile "''{}''" 0 "(=)",
      THEN conjunct1]
  have "fst (createProviderClient_items (\<lambda>logger. failingStub) (Some returningLogger) goFile ''{}'' 0)
     = Rejected (Error ''itemsThrow'')"
    by (simp add: none)
  with none logged show ?thesis by simp
qed

text \<open>
  C9 as stated fails for a logger that throws. \<^verbatim>\<open>items\<close> of a provider whose
  transport fails with \<open>itemsThrow\<close> rejects with that failure when no logger is
  supplied and with the logger's \<open>loggerThrow\<close> when the throwing logger is. And
  \<^verbatim>\<open>annotations\<close> of a provider that answers every request resolves to its empty
  list when no logger is supplied, and with the throwing logger rejects before the
  transport is called at all.
\<close>

theorem throwing_logger_alters_result:
  "fst (createProviderClient_items (\<lambda>logger. failingStub) None goFile ''{}'' 0)
     = Rejected (Error ''itemsThrow'') \<and>
   fst (createProviderClient_items (\<lambda>logger. failingStub) (Some throwingLogger) goFile ''{}'' 0)
     = Rejected (Error ''loggerThrow'') \<and>
   createProviderClient_annotations (=) (\<lambda>logger. countingStub None) (Inr \<circ> jsonCapabilities)
       None goFile ''{}'' 0
     = (Resolved (Some []), 1, [TransportCall Capabilities, TransportCall Annotations]) \<and>
   createProviderClient_annotations (=) (\<lambda>logger. countingStub None) (Inr \<circ> jsonCapabilities)
       (Some throwingLogger) goFile ''{}'' 0
     = (Rejected (Error ''loggerThrow''), 0,
        [LoggerCall ''checking provider capabilities'',
         LoggerCall ''failed to get provider capabilities: Error: loggerThrow''])"
  by (simp add: createProviderClient_items_def createProviderClient_annotations_def
      failingStub_def countingStub_def catchBlock_def optionalLoggerCall_simps
      throwingLogger_def errorText_def)
section \<open>Properties of the client facade\<close>

lemma gate_disabled:
  "falsy (enable config) \<Longrightarrow> cfg_providers (resolveConfiguration config) = []"
  by (simp add: resolveConfiguration_def gateConfiguration_def configurationFromUserInput_def)

lemma providers_disabled:
  "falsy (enable config) \<Longrightarrow>
     providerClientsWithSettings env now pool config = (Next [], pool, [])"
  by (simp add: providerClientsWithSettings_def gate_disabled filterNull_def)

lemma observe_none: "observe call logger emitPartial [] s = ([[]], s, [])"
  by (simp add: observe_def combinedEmissions_def)

lemma cycle_disabled:
  "falsy (enable config) \<Longrightarrow>
     cycle env call emitPartial (now, config) state = (([[]], None), state, [])"
  by (cases state) (simp add: cycle_def providers_disabled observe_none)

lemma cycles_disabled:
  "\<forall>arrival \<in> set arrivals. falsy (enable (snd arrival)) \<Longrightarrow>
     cycles env call emitPartial arrivals state = ((map (\<lambda>arrival. []) arrivals, None), state, [])"
proof (induction arrivals)
  case Nil
  then show ?case by simp
next
  case (Cons arrival arrivals)
  obtain now config where a: "arrival = (now, config)" by (cases arrival)
  with Cons.prems have "falsy (enable config)" by simp
  with a Cons show ?case by (simp add: cycle_disabled)
qed

lemma changes_disabled:
  assumes "\<forall>arrival \<in> set (emitted (env_configuration env resource)). falsy (enable (snd arrival))"
  shows "changes env call emitPartial resource state =
           (\<lparr>emitted = map (\<lambda>arrival. []) (emitted (env_configuration env resource)),
             ending = ending (env_configuration env resource)\<rparr>, state, [])"
  by (simp add: changes_def cycles_disabled[OF assms])

lemma firstValueFrom_empty_lists:
  "arrivals \<noteq> [] \<or> e = Completed \<Longrightarrow>
     firstValueFrom \<lparr>emitted = map (\<lambda>arrival. []) arrivals, ending = e\<rparr> (Some []) = Resolved []"
  by (cases arrivals) (auto simp: firstValueFrom_def)

text \<open>
  C5. If every configuration the host supplies has its \<^verbatim>\<open>enable\<close> flag set to
  \<^verbatim>\<open>false\<close>, then whatever providers those configurations list, the streams of
  \<^verbatim>\<open>itemsChanges\<close> and \<^verbatim>\<open>annotationsChanges\<close> emit only empty lists, the pool
  and the state behind the transports are left as they were (no client is made, no
  provider is called) and nothing is logged; \<^verbatim>\<open>items\<close> and \<^verbatim>\<open>annotations\<close>
  resolve to the empty list as soon as a configuration arrives or the stream completes.
\<close>

theorem disabled_configuration:
  assumes off: "\<forall>resource. \<forall>arrival \<in> set (emitted (env_configuration env resource)).
                  enable (snd arrival) = Some False"
  shows "itemsChanges rt env params emitPartial state =
           (\<lparr>emitted = map (\<lambda>arrival. []) (emitted (env_configuration env None)),
             ending = ending (env_configuration env None)\<rparr>, state, []) \<and>
         annotationsChanges rt env params emitPartial state =
           (\<lparr>emitted = map (\<lambda>arrival. []) (emitted (env_configuration env (Some (uri params)))),
             ending = ending (env_configuration env (Some (uri params)))\<rparr>, state, []) \<and>
         (emitted (env_configuration env None) \<noteq> [] \<or>
          ending (env_configuration env None) = Completed \<longrightarrow>
            Client_items rt env params state = Resolved []) \<and>
         (emitted (env_configuration env (Some (uri params))) \<noteq> [] \<or>
          ending (env_configuration env (Some (uri params))) = Completed \<longrightarrow>
            Client_annotations rt env params state = Resolved [])"
proof -
  have falsy: "\<forall>arrival \<in> set (emitted (env_configuration env resource)). falsy (enable (snd arrival))"
    for resource
    using off by (simp add: falsy_def)
  have items: "itemsChanges rt env params emitPartial state =
           (\<lparr>emitted = map (\<lambda>arrival. []) (emitted (env_configuration env None)),
             ending = ending (env_configuration env None)\<rparr>, state, [])" for emitPartial
    unfolding itemsChanges_def by (rule changes_disabled[OF falsy])
  have annotations: "annotationsChanges rt env params emitPartial state =
           (\<lparr>emitted = map (\<lambda>arrival. []) (emitted (env_configuration env (Some (uri params)))),
             ending = ending (env_configuration env (Some (uri params)))\<rparr>, state, [])" for emitPartial
    unfolding annotationsChanges_def by (rule changes_disabled[OF falsy])
  show ?thesis
    by (simp add: items annotations Client_items_def Client_annotations_def
        firstValueFrom_empty_lists)
qed

theorem disabled_configuration_witness:
  "itemsChanges stubRuntime
       (hostEnv \<lparr>emitted = [(0, threeProviders\<lparr>enable := Some False\<rparr>)], ending = Open\<rparr>)
       goFile True (createProviderPool, 0)
     = (\<lparr>emitted = [[]], ending = Open\<rparr>, (createProviderPool, 0), []) \<and>
   Client_items stubRuntime
       (hostEnv \<lparr>emitted = [(0, threeProviders\<lparr>enable := Some False\<rparr>)], ending = Open\<rparr>)
       goFile (createProviderPool, 0)
     = Resolved [] \<and>
   Client_annotations stubRuntime
       (hostEnv \<lparr>emitted = [(0, threeProviders\<lparr>enable := Some False\<rparr>)], ending = Open\<rparr>)
       goFile (createProviderPool, 0)
     = Resolved []"
proof -
  let ?env = "hostEnv \<lparr>emitted = [(0, threeProviders\<lparr>enable := Some False\<rparr>)], ending = Open\<rparr>"
  have off: "\<forall>resource. \<forall>arrival \<in> set (emitted (env_configuration ?env resource)).
               enable (snd arrival) = Some False"
    by (simp add: hostEnv_def)
  from disabled_configuration[OF off, of stubRuntime goFile True "(createProviderPool, 0)"]
  show ?thesis
    by (simp add: hostEnv_def)
qed

text \<open>
  The pull operation of the later text of the module resolves to the first value of the
  combined stream taken with \<open>emitPartial = False\<close>, and to the empty list when that
  stream completes without a value; the one of the earlier text rejects with an
  \<^verbatim>\<open>EmptyError\<close> in that case.
\<close>

lemma Client_items_first_value:
  "Client_items rt env params state =
     (case emitted (fst (itemsChanges rt env params False state)) of
        v # later \<Rightarrow> Resolved v
      | [] \<Rightarrow>
          (case ending (fst (itemsChanges rt env params False state)) of
             Completed \<Rightarrow> Resolved []
           | Errored err \<Rightarrow> Rejected err
           | Open \<Rightarrow> Pending))"
  by (simp add: Client_items_def firstValueFrom_def split: list.splits terminal.splits)

lemma Client_items_earlier_first_value:
  "Client_items_earlier rt env params state =
     (case emitted (fst (itemsChanges_earlier rt env params False state)) of
        v # later \<Rightarrow> Resolved v
      | [] \<Rightarrow>
          (case ending (fst (itemsChanges_earlier rt env params False state)) of
             Completed \<Rightarrow> Rejected EmptyError
           | Errored err \<Rightarrow> Rejected err
           | Open \<Rightarrow> Pending))"
  by (simp add: Client_items_earlier_def firstValueFrom_def split: list.splits terminal.splits)

text \<open>
  C6. For a host whose configuration stream completes without a value, \<^verbatim>\<open>items\<close> of
  the earlier text of the module rejects with an \<^verbatim>\<open>EmptyError\<close>, where the claim
  asks for the empty list; \<^verbatim>\<open>items\<close> of the later text resolves to the empty list.
\<close>

theorem earlier_items_rejects_on_empty_stream:
  "Client_items_earlier stubRuntime (hostEnv silent) goFile (createProviderPool, 0)
     = Rejected EmptyError \<and>
   Client_items stubRuntime (hostEnv silent) goFile (createProviderPool, 0) = Resolved []"
  by (simp add: Client_items_earlier_def Client_items_def itemsChanges_earlier_def
      itemsChanges_def changes_def hostEnv_def silent_def firstValueFrom_def)

lemma credentialsFail_input:
  "credentialsFail env provider \<longleftrightarrow> (\<exists>err. authInfoInput env provider = Failed err)"
  by (auto simp: credentialsFail_def authInfoInput_def split: hookResult.splits notification.splits)

lemma authInfoStreams_returns:
  "\<forall>entry \<in> set entries. \<not> hookThrows env (fst entry) \<Longrightarrow>
     authInfoStreams env entries = Inr (map (authInfoStream env) entries)"
proof (induction entries)
  case Nil
  then show ?case by simp
next
  case (Cons entry entries)
  obtain provider settings where entry: "entry = (provider, settings)" by (cases entry)
  with Cons show ?case
    by (auto simp: hookThrows_def authInfoStream_def authInfoInput_def split: hookResult.splits)
qed

text \<open>
  When the hook throws for some provider of the list, the list of observables is not
  built, and the error is that of the first provider for which the hook throws.
\<close>

lemma authInfoStreams_throws:
  "\<exists>entry \<in> set entries. hookThrows env (fst entry) \<Longrightarrow>
     \<exists>err. authInfoStreams env entries = Inl err"
proof (induction entries)
  case Nil
  then show ?case by simp
next
  case (Cons entry entries)
  obtain provider settings where entry: "entry = (provider, settings)" by (cases entry)
  show ?case
  proof (cases "hookThrows env provider")
    case True
    with entry show ?thesis
      by (auto simp: hookThrows_def split: hookResult.splits)
  next
    case False
    with Cons.prems entry have "\<exists>entry \<in> set entries. hookThrows env (fst entry)" by auto
    from Cons.IH[OF this] entry show ?thesis
      by (auto split: hookResult.splits)
  qed
qed

lemma providerClients_hook_throws:
  assumes "\<exists>entry \<in> set (cfg_providers (resolveConfiguration config)). hookThrows env (fst entry)"
  shows "\<exists>err. providerClientsWithSettings env now pool config = (Failed err, pool, [])"
proof -
  from assms have "cfg_providers (resolveConfiguration config) \<noteq> []" by auto
  with authInfoStreams_throws[OF assms] show ?thesis
    by (auto simp: providerClientsWithSettings_def)
qed

lemma resolveProvider_fails:
  "credentialsFail env provider \<Longrightarrow>
     \<exists>err. lookupAuthInfo env provider = Returns (Failed err) \<and>
       resolveProvider env now pool (authInfoStream env (provider, settings)) =
         (Next None, pool, [FacadeLog (creationErrorMessage provider err)])"
  by (auto simp: credentialsFail_def resolveProvider_def authInfoStream_def authInfoInput_def
      split: notification.splits hookResult.splits)

lemma resolveProvider_ok:
  "\<not> credentialsFail env provider \<Longrightarrow>
     fst (resolveProvider env now pool (authInfoStream env (provider, settings))) \<noteq> Next None \<and>
     snd (snd (resolveProvider env now pool (authInfoStream env (provider, settings)))) = []"
  by (auto simp: credentialsFail_input resolveProvider_def authInfoStream_def
      split: notification.splits option.splits prod.splits)

lemma failureLogs_Cons:
  "failureLogs env ((provider, settings) # entries) =
     (case lookupAuthInfo env provider of
        Returns (Failed err) \<Rightarrow> [FacadeLog (creationErrorMessage provider err)]
      | _ \<Rightarrow> []) @ failureLogs env entries"
  by (simp add: failureLogs_def)

lemma failureLogs_ok:
  "\<not> credentialsFail env provider \<Longrightarrow>
     failureLogs env ((provider, settings) # entries) = failureLogs env entries"
  by (auto simp: failureLogs_Cons credentialsFail_def split: notification.splits hookResult.splits)

lemma resolveProviders_filter:
  "resolveProviders env now pool (map (authInfoStream env) entries) = (ns, pool', evs) \<Longrightarrow>
     resolveProviders env now pool
         (map (authInfoStream env) (filter (\<lambda>entry. \<not> credentialsFail env (fst entry)) entries))
       = (filter (\<lambda>n. n \<noteq> Next None) ns, pool', []) \<and>
     evs = failureLogs env entries"
proof (induction entries arbitrary: pool ns pool' evs)
  case Nil
  then show ?case by (simp add: failureLogs_def)
next
  case (Cons entry entries)
  obtain provider settings where entry: "entry = (provider, settings)" by (cases entry)
  obtain n pool1 evs1 where one:
    "resolveProvider env now pool (authInfoStream env (provider, settings)) = (n, pool1, evs1)"
    by (cases "resolveProvider env now pool (authInfoStream env (provider, settings))")
  obtain ns2 pool2 evs2 where rest:
    "resolveProviders env now pool1 (map (authInfoStream env) entries) = (ns2, pool2, evs2)"
    by (cases "resolveProviders env now pool1 (map (authInfoStream env) entries)")
  from Cons.prems entry one rest
  have res: "ns = n # ns2" "pool' = pool2" "evs = evs1 @ evs2" by auto
  note IH = Cons.IH[OF rest]
  show ?case
  proof (cases "credentialsFail env provider")
    case True
    from resolveProvider_fails[OF True, of now pool settings] one
    obtain err where "lookupAuthInfo env provider = Returns (Failed err)"
      "n = Next None" "pool1 = pool" "evs1 = [FacadeLog (creationErrorMessage provider err)]"
      by auto
    with IH True entry res show ?thesis
      by (simp add: failureLogs_Cons)
  next
    case False
    from resolveProvider_ok[OF False, of now pool settings] one
    have "n \<noteq> Next None" "evs1 = []" by auto
    with IH False entry res one rest show ?thesis
      by (simp add: failureLogs_ok)
  qed
qed

lemma combineLatest_drop_null:
  assumes "ns \<noteq> []"
  shows "map_option filterNull (combineLatest ns) =
           (if filter (\<lambda>n. n \<noteq> Next None) ns = [] then Some []
            else map_option filterNull (combineLatest (filter (\<lambda>n. n \<noteq> Next None) ns)))"
proof -
  let ?isNext = "\<lambda>n. case n of Next v \<Rightarrow> True | _ \<Rightarrow> False"
  let ?vals = "\<lambda>ns. concat (map (\<lambda>n. case n of Next v \<Rightarrow> [v] | _ \<Rightarrow> []) ns)"
  let ?keep = "filter (\<lambda>n. n \<noteq> Next None)"
  have all: "list_all ?isNext (?keep ns) = list_all ?isNext ns" for ns :: "'a option notification list"
    by (induction ns) auto
  have vals: "filterNull (?vals (?keep ns)) = filterNull (?vals ns)" for ns :: "'a option notification list"
    by (induction ns) (auto simp: filterNull_def split: notification.splits)
  have none: "filterNull (?vals ns) = []" if "?keep ns = []" for ns :: "'a option notification list"
    using vals[of ns] that by (simp add: filterNull_def)
  have allnext: "list_all ?isNext ns" if "?keep ns = []" for ns :: "'a option notification list"
    using all[of ns] that by simp
  show ?thesis
  proof (cases "?keep ns = []")
    case True
    with assms none[OF True] allnext[OF True] show ?thesis
      by (simp add: combineLatest_def)
  next
    case False
    with assms all[of ns] vals[of ns] show ?thesis
      by (simp add: combineLatest_def)
  qed
qed

lemma resolveProviders_Nil_iff:
  "fst (resolveProviders env now pool streams) = [] \<longleftrightarrow> streams = []"
  by (cases streams) (auto split: prod.splits)

text \<open>
  The list a configuration resolves to, written with the option that
  \<^verbatim>\<open>combineLatest\<close> yields.
\<close>

lemma providerClients_returns:
  assumes "cfg_providers (resolveConfiguration config) = entries"
    and "\<forall>entry \<in> set entries. \<not> hookThrows env (fst entry)"
    and "entries \<noteq> []"
    and "resolveProviders env now pool (map (authInfoStream env) entries) = (ns, pool', evs)"
  shows "providerClientsWithSettings env now pool config =
           ((case map_option filterNull (combineLatest ns) of
               Some clients \<Rightarrow> Next clients | None \<Rightarrow> Done), pool', evs)"
  using assms authInfoStreams_returns[OF assms(2)]
  by (simp add: providerClientsWithSettings_def split: option.splits)

lemma providerClients_without_failing:
  assumes "cfg_providers (resolveConfiguration config) = entries"
    and "cfg_providers (resolveConfiguration config') =
           filter (\<lambda>entry. \<not> credentialsFail env (fst entry)) entries"
    and returns: "\<forall>entry \<in> set entries. \<not> hookThrows env (fst entry)"
  shows "fst (providerClientsWithSettings env now pool config)
           = fst (providerClientsWithSettings env now pool config') \<and>
         fst (snd (providerClientsWithSettings env now pool config))
           = fst (snd (providerClientsWithSettings env now pool config')) \<and>
         snd (snd (providerClientsWithSettings env now pool config)) = failureLogs env entries \<and>
         snd (snd (providerClientsWithSettings env now pool config')) = []"
proof (cases "entries = []")
  case True
  with assms show ?thesis
    by (simp add: providerClientsWithSettings_def failureLogs_def)
next
  case False
  let ?ok = "filter (\<lambda>entry. \<not> credentialsFail env (fst entry)) entries"
  from returns have returns': "\<forall>entry \<in> set ?ok. \<not> hookThrows env (fst entry)" by simp
  obtain ns pool' evs where r:
    "resolveProviders env now pool (map (authInfoStream env) entries) = (ns, pool', evs)"
    by (cases "resolveProviders env now pool (map (authInfoStream env) entries)")
  note f = resolveProviders_filter[OF r]
  from False resolveProviders_Nil_iff[of env now pool "map (authInfoStream env) entries"] r
  have ns: "ns \<noteq> []" by auto
  note whole = providerClients_returns[OF assms(1) returns False r]
  show ?thesis
  proof (cases "?ok = []")
    case True
    with f have none: "filter (\<lambda>n. n \<noteq> Next None) ns = []" and same: "pool' = pool" by auto
    from combineLatest_drop_null[OF ns] none
    have "map_option filterNull (combineLatest ns) = Some []" by simp
    with whole same f have "providerClientsWithSettings env now pool config
        = (Next [], pool, failureLogs env entries)" by simp
    moreover from assms(2) True have "providerClientsWithSettings env now pool config'
        = (Next [], pool, [])"
      by (simp add: providerClientsWithSettings_def filterNull_def)
    ultimately show ?thesis by simp
  next
    case ok: False
    with f resolveProviders_Nil_iff[of env now pool "map (authInfoStream env) ?ok"]
    have keep: "filter (\<lambda>n. n \<noteq> Next None) ns \<noteq> []" by auto
    from f have r': "resolveProviders env now pool (map (authInfoStream env) ?ok)
        = (filter (\<lambda>n. n \<noteq> Next None) ns, pool', [])" by simp
    note part = providerClients_returns[OF assms(2) returns' ok r']
    from combineLatest_drop_null[OF ns] keep
    have "map_option filterNull (combineLatest ns)
        = map_option filterNull (combineLatest (filter (\<lambda>n. n \<noteq> Next None) ns))" by simp
    with whole part f show ?thesis by simp
  qed
qed

lemma cycle_without_failing:
  assumes "cfg_providers (resolveConfiguration config) = entries"
    and "cfg_providers (resolveConfiguration config') =
           filter (\<lambda>entry. \<not> credentialsFail env (fst entry)) entries"
    and "\<forall>entry \<in> set entries. \<not> hookThrows env (fst entry)"
  shows "fst (cycle env call emitPartial (now, config) state)
           = fst (cycle env call emitPartial (now, config') state) \<and>
         fst (snd (cycle env call emitPartial (now, config) state))
           = fst (snd (cycle env call emitPartial (now, config') state)) \<and>
         snd (snd (cycle env call emitPartial (now, config) state))
           = failureLogs env entries @ snd (snd (cycle env call emitPartial (now, config') state))"
proof -
  obtain pool s where state: "state = (pool, s)" by (cases state)
  obtain r pool' where c': "providerClientsWithSettings env now pool config' = (r, pool', [])"
    using providerClients_without_failing[OF assms, of now pool]
    by (cases "providerClientsWithSettings env now pool config'") auto
  with providerClients_without_failing[OF assms, of now pool]
  have c: "providerClientsWithSettings env now pool config = (r, pool', failureLogs env entries)"
    by (cases "providerClientsWithSettings env now pool config") auto
  show ?thesis
    unfolding state
    by (cases r) (simp_all add: cycle_def c c' split: prod.splits)
qed

lemma transportCallsOf_append:
  "transportCallsOf (xs @ ys) = transportCallsOf xs @ transportCallsOf ys"
  by (simp add: transportCallsOf_def)

lemma transportCallsOf_logs: "transportCallsOf (failureLogs env entries) = []"
  by (induction entries)
     (auto simp: failureLogs_def transportCallsOf_def split: notification.splits hookResult.splits)

lemma transportCallsOf_failureLog: "transportCallsOf (failureLog logger outcome) = []"
  by (cases outcome) (auto simp: failureLog_def transportCallsOf_def)

lemma items_call:
  "\<exists>outcome s' evs. providerItems rt params client settings s = (outcome, s', evs) \<and>
     contribution outcome \<noteq> None \<and>
     transportCallsOf (map (ProviderEvent client) evs) = [(client, Items)]"
  by (auto simp: providerItems_def ProviderClient_items_def contribution_def transportCallsOf_def
      optionalCall_def split: prod.splits sum.splits option.splits)

lemma callProviders_items:
  "list_all (\<lambda>c. c \<noteq> None) (fst (callProviders (providerItems rt params) logger pcs s)) \<and>
   length (fst (callProviders (providerItems rt params) logger pcs s)) = length pcs \<and>
   transportCallsOf (snd (snd (callProviders (providerItems rt params) logger pcs s)))
     = map (\<lambda>pc. (fst pc, Items)) pcs"
proof (induction pcs arbitrary: s)
  case Nil
  then show ?case by (simp add: transportCallsOf_def)
next
  case (Cons pc pcs)
  obtain client settings where pc: "pc = (client, settings)" by (cases pc)
  from items_call[of rt params client settings s]
  obtain outcome s' evs where call: "providerItems rt params client settings s = (outcome, s', evs)"
    "contribution outcome \<noteq> None"
    "transportCallsOf (map (ProviderEvent client) evs) = [(client, Items)]"
    by blast
  obtain cs s2 evs2 where rest: "callProviders (providerItems rt params) logger pcs s' = (cs, s2, evs2)"
    by (cases "callProviders (providerItems rt params) logger pcs s'")
  with Cons.IH[of s'] have "list_all (\<lambda>c. c \<noteq> None) cs" "length cs = length pcs"
    "transportCallsOf evs2 = map (\<lambda>pc. (fst pc, Items)) pcs" by simp_all
  with pc call rest show ?case
    by (simp add: transportCallsOf_append transportCallsOf_failureLog)
qed

lemma observe_items:
  "pcs \<noteq> [] \<Longrightarrow>
   length (fst (observe (providerItems rt params) logger False pcs s)) = 1 \<and>
   transportCallsOf (snd (snd (observe (providerItems rt params) logger False pcs s)))
     = map (\<lambda>pc. (fst pc, Items)) pcs"
proof -
  assume ne: "pcs \<noteq> []"
  obtain cs s' evs where r: "callProviders (providerItems rt params) logger pcs s = (cs, s', evs)"
    by (cases "callProviders (providerItems rt params) logger pcs s")
  with callProviders_items[of rt params logger pcs s]
  have "list_all (\<lambda>c. c \<noteq> None) cs" "length cs = length pcs"
    "transportCallsOf evs = map (\<lambda>pc. (fst pc, Items)) pcs" by simp_all
  with ne r show ?thesis
    by (auto simp: observe_def combinedEmissions_def)
qed

lemma observe_items_any:
  "length (fst (observe (providerItems rt params) logger False pcs s)) = 1 \<and>
   transportCallsOf (snd (snd (observe (providerItems rt params) logger False pcs s)))
     = map (\<lambda>pc. (fst pc, Items)) pcs"
proof (cases "pcs = []")
  case True
  then show ?thesis by (simp add: observe_none transportCallsOf_def)
next
  case False
  then show ?thesis by (simp add: observe_items)
qed

text \<open>
  The pool hands out, for each provider whose credentials resolve, the client it holds
  or makes for the provider's URI and credentials.
\<close>

lemma resolveProvider_present:
  assumes "authInfoInput env provider = Next auth" and "env_mock env = None"
  shows "resolveProvider env now pool (authInfoStream env (provider, settings)) =
           (Next (Some (fst (getOrCreate pool now \<lparr>providerUri = provider, authInfo = auth\<rparr>
                               \<lparr>providerBaseUri_env = env_providerBaseUri env, logger_env = True\<rparr>),
                        settings)),
            snd (getOrCreate pool now \<lparr>providerUri = provider, authInfo = auth\<rparr>
                   \<lparr>providerBaseUri_env = env_providerBaseUri env, logger_env = True\<rparr>),
            [])"
  using assms
  by (simp add: resolveProvider_def authInfoStream_def split: prod.splits)

lemma resolveProviders_present:
  assumes "\<forall>entry \<in> set entries. \<not> credentialsFail env (fst entry) \<and> authInfoInput env (fst entry) \<noteq> Done"
    and "entries \<noteq> []"
  shows "\<exists>pcs. map_option filterNull
                 (combineLatest (fst (resolveProviders env now pool (map (authInfoStream env) entries))))
                 = Some pcs \<and> length pcs = length entries"
proof -
  have one: "\<exists>pc. fst (resolveProvider env now pool (authInfoStream env (provider, settings)))
                 = Next (Some pc)"
    if "\<not> credentialsFail env provider" and "authInfoInput env provider \<noteq> Done"
    for provider settings pool
    using that
    by (auto simp: credentialsFail_input resolveProvider_def authInfoStream_def
        split: notification.splits option.splits prod.splits)
  have "\<exists>pcs. fst (resolveProviders env now pool (map (authInfoStream env) entries))
                = map (\<lambda>pc. Next (Some pc)) pcs \<and>
              length pcs = length entries"
    using assms(1)
  proof (induction entries arbitrary: pool)
    case Nil
    then show ?case by simp
  next
    case (Cons entry entries)
    obtain provider settings where entry: "entry = (provider, settings)" by (cases entry)
    from Cons.prems entry one[of provider pool settings]
    obtain pc where pc:
      "fst (resolveProvider env now pool (authInfoStream env (provider, settings))) = Next (Some pc)"
      by auto
    obtain pool1 where pool1:
      "fst (snd (resolveProvider env now pool (authInfoStream env (provider, settings)))) = pool1"
      by simp
    from Cons.IH[of pool1] Cons.prems
    obtain pcs where pcs:
      "fst (resolveProviders env now pool1 (map (authInfoStream env) entries))
         = map (\<lambda>pc. Next (Some pc)) pcs"
      "length pcs = length entries" by auto
    with pc entry pool1
    have "fst (resolveProviders env now pool (map (authInfoStream env) (entry # entries)))
            = map (\<lambda>pc. Next (Some pc)) (pc # pcs)"
      by (auto split: prod.splits)
    with pcs(2) show ?case
      by (intro exI[of _ "pc # pcs"]) simp
  qed
  then obtain pcs where pcs:
    "fst (resolveProviders env now pool (map (authInfoStream env) entries))
       = map (\<lambda>pc. Next (Some pc)) pcs"
    "length pcs = length entries" by blast
  have vals: "filterNull (concat (map (\<lambda>n. case n of Next v \<Rightarrow> [v] | _ \<Rightarrow> [])
                 (map (\<lambda>pc. Next (Some pc)) pcs))) = pcs" for pcs :: "'x list"
    by (induction pcs) (simp_all add: filterNull_def)
  have all: "list_all (\<lambda>n. case n of Next v \<Rightarrow> True | _ \<Rightarrow> False) (map (\<lambda>pc. Next (Some pc)) pcs)"
    for pcs :: "'x list"
    by (induction pcs) simp_all
  from pcs assms(2) have "pcs \<noteq> []" by auto
  with pcs vals[of pcs] all[of pcs] show ?thesis
    by (simp add: combineLatest_def)
qed

lemma providerClients_present:
  assumes "cfg_providers (resolveConfiguration config) = entries"
    and "\<forall>entry \<in> set entries. \<not> credentialsFail env (fst entry) \<and> authInfoInput env (fst entry) \<noteq> Done"
    and returns: "\<forall>entry \<in> set entries. \<not> hookThrows env (fst entry)"
  shows "\<exists>pcs. fst (providerClientsWithSettings env now pool config) = Next pcs \<and>
               length pcs = length entries"
proof (cases "entries = []")
  case True
  with assms(1) show ?thesis
    by (simp add: providerClientsWithSettings_def filterNull_def)
next
  case False
  obtain ns pool' evs where r:
    "resolveProviders env now pool (map (authInfoStream env) entries) = (ns, pool', evs)"
    by (cases "resolveProviders env now pool (map (authInfoStream env) entries)")
  from resolveProviders_present[OF assms(2) False, of now pool] r
    providerClients_returns[OF assms(1) returns False r]
  show ?thesis by auto
qed

text \<open>
  Isolation of a failing credential stream. Take a host whose credential hook returns
  for every configured provider. In one request cycle, the providers whose credential
  stream fails are left out and nothing else changes: the values emitted and the pool
  and transport state left behind are those of the same cycle run on a configuration
  that does not list these providers, and the events are the same but for one message
  per failing provider, handed to the facade's logger first. When every credential
  stream notifies, the cycle for items with \<open>emitPartial = False\<close> emits its combined
  value, and the providers whose credentials did not fail are each called once, in the
  order of the configuration.
\<close>

lemma credential_stream_failure_isolated:
  assumes "cfg_providers (resolveConfiguration config) = entries"
    and "cfg_providers (resolveConfiguration config') =
           filter (\<lambda>entry. \<not> credentialsFail env (fst entry)) entries"
    and returns: "\<forall>entry \<in> set entries. \<not> hookThrows env (fst entry)"
  shows "fst (cycle env call emitPartial (now, config) state)
           = fst (cycle env call emitPartial (now, config') state) \<and>
         fst (snd (cycle env call emitPartial (now, config) state))
           = fst (snd (cycle env call emitPartial (now, config') state)) \<and>
         snd (snd (cycle env call emitPartial (now, config) state))
           = failureLogs env entries @ snd (snd (cycle env call emitPartial (now, config') state)) \<and>
         ((\<forall>entry \<in> set entries. authInfoInput env (fst entry) \<noteq> Done) \<longrightarrow>
            length (fst (fst (cycle env (providerItems rt params) False (now, config) state))) = 1 \<and>
            snd (fst (cycle env (providerItems rt params) False (now, config) state)) = None \<and>
            map snd (transportCallsOf
                       (snd (snd (cycle env (providerItems rt params) False (now, config) state))))
              = map (\<lambda>entry. Items) (filter (\<lambda>entry. \<not> credentialsFail env (fst entry)) entries))"
proof -
  let ?ok = "filter (\<lambda>entry. \<not> credentialsFail env (fst entry)) entries"
  have called: "length (fst (fst (cycle env (providerItems rt params) False (now, config) state))) = 1 \<and>
            snd (fst (cycle env (providerItems rt params) False (now, config) state)) = None \<and>
            map snd (transportCallsOf
                       (snd (snd (cycle env (providerItems rt params) False (now, config) state))))
              = map (\<lambda>entry. Items) ?ok"
    if settle: "\<forall>entry \<in> set entries. authInfoInput env (fst entry) \<noteq> Done"
  proof -
    obtain pool s where state: "state = (pool, s)" by (cases state)
    from settle have "\<forall>entry \<in> set ?ok. \<not> credentialsFail env (fst entry) \<and>
        authInfoInput env (fst entry) \<noteq> Done" by simp
    moreover from returns have "\<forall>entry \<in> set ?ok. \<not> hookThrows env (fst entry)" by simp
    ultimately obtain pcs where pcs:
      "fst (providerClientsWithSettings env now pool config') = Next pcs"
      "length pcs = length ?ok"
      using providerClients_present[OF assms(2), of env now pool] by blast
    obtain pool' evs where c': "providerClientsWithSettings env now pool config' = (Next pcs, pool', evs)"
      using pcs(1) by (cases "providerClientsWithSettings env now pool config'") auto
    from providerClients_without_failing[OF assms, of now pool] c'
    have evs: "evs = []" by simp
    obtain vs s' evs' where o:
      "observe (providerItems rt params) (env_logger env) False pcs s = (vs, s', evs')"
      by (cases "observe (providerItems rt params) (env_logger env) False pcs s")
    with observe_items_any[of rt params "env_logger env" pcs s]
    have one: "length vs = 1" and calls: "transportCallsOf evs' = map (\<lambda>pc. (fst pc, Items)) pcs"
      by simp_all
    have same: "map (\<lambda>pc. Items) pcs = map (\<lambda>entry. Items) ?ok"
      using pcs(2) by (simp add: map_replicate_const)
    have c'': "cycle env (providerItems rt params) False (now, config') state
                 = ((vs, None), (pool', s'), evs')"
      unfolding state by (simp add: cycle_def c' o evs)
    from cycle_without_failing[OF assms, of "providerItems rt params" False now state]
    show ?thesis
      by (simp add: c'' one calls same transportCallsOf_append transportCallsOf_logs comp_def)
  qed
  from cycle_without_failing[OF assms, of call emitPartial now state] called show ?thesis
    by blast
qed

lemma keys_differ:
  "cacheKey \<lparr>providerUri = ''https://c.example/p'', authInfo = None\<rparr> \<noteq>
   cacheKey \<lparr>providerUri = ''https://a.example/p'', authInfo = None\<rparr>"
  by (simp add: cacheKey_def jsonObject_def jsonOptional_def jsonProperty_def
      quoteJSONString_def quoteChar_def)

lemma stub_items:
  "providerItems stubRuntime params client settings s = (Resolved (Some []), s, [TransportCall Items])"
  by (simp add: providerItems_def stubRuntime_def countingStub_def ProviderClient_items_def)

lemma three_entries:
  "cfg_providers (resolveConfiguration threeProviders) =
     [(''https://a.example/p'', ''{}''), (''https://b.example/p'', ''{}''),
      (''https://c.example/p'', ''{}'')]"
  by (simp add: resolveConfiguration_def gateConfiguration_def configurationFromUserInput_def
      threeProviders_def falsy_def)

lemma second_call:
  assumes "cacheKey key2 \<noteq> cacheKey key1"
  shows "fst (getOrCreate (snd (getOrCreate createProviderPool t key1 env1)) t' key2 env2)
           = createProviderClient (Suc 0) (providerUri key2) (authInfo key2) env2"
  unfolding first_call snd_conv
  using assms
  by (simp add: getOrCreate_def LRUCache_get_def LRUCache_set_def Let_def)

lemma creationErrorMessage_b:
  "creationErrorMessage ''https://b.example/p'' (Error ''no token'')
     = ''Error creating provider client for https://b.example/p: Error: no token''"
  by (simp add: creationErrorMessage_def errorText_def)

lemma three_resolved:
  "providerClientsWithSettings (hostEnv configurations) now createProviderPool threeProviders =
     (Next [(pooledClient 0 ''https://a.example/p'', ''{}''),
            (pooledClient 1 ''https://c.example/p'', ''{}'')],
      snd (getOrCreate (snd (getOrCreate createProviderPool now
              \<lparr>providerUri = ''https://a.example/p'', authInfo = None\<rparr>
              \<lparr>providerBaseUri_env = None, logger_env = True\<rparr>)) now
              \<lparr>providerUri = ''https://c.example/p'', authInfo = None\<rparr>
              \<lparr>providerBaseUri_env = None, logger_env = True\<rparr>),
      [FacadeLog ''Error creating provider client for https://b.example/p: Error: no token''])"
proof -
  let ?env = "\<lparr>providerBaseUri_env = None, logger_env = True\<rparr>"
  let ?a = "getOrCreate createProviderPool now
              \<lparr>providerUri = ''https://a.example/p'', authInfo = None\<rparr> ?env"
  let ?c = "getOrCreate (snd ?a) now \<lparr>providerUri = ''https://c.example/p'', authInfo = None\<rparr> ?env"
  have streams: "authInfoStreams (hostEnv configurations)
        [(''https://a.example/p'', ''{}''), (''https://b.example/p'', ''{}''),
         (''https://c.example/p'', ''{}'')]
      = Inr [((''https://a.example/p'', ''{}''), Next None),
             ((''https://b.example/p'', ''{}''), Failed (Error ''no token'')),
             ((''https://c.example/p'', ''{}''), Next None)]"
    by (simp add: lookupAuthInfo_def hostEnv_def)
  have "providerClientsWithSettings (hostEnv configurations) now createProviderPool threeProviders =
          (Next [(fst ?a, ''{}''), (fst ?c, ''{}'')], snd ?c,
           [FacadeLog (creationErrorMessage ''https://b.example/p'' (Error ''no token''))])"
    unfolding providerClientsWithSettings_def three_entries Let_def streams
    by (auto simp: resolveProvider_def hostEnv_def combineLatest_def filterNull_def
        split: prod.splits)
  moreover have "fst ?a = pooledClient 0 ''https://a.example/p''"
    by (simp add: first_call createProviderClient_def pooledClient_def)
  moreover have "fst ?c = pooledClient 1 ''https://c.example/p''"
    using second_call[OF keys_differ, of now ?env now ?env]
    by (simp add: createProviderClient_def pooledClient_def)
  ultimately show ?thesis by (simp add: creationErrorMessage_b)
qed

lemma three_thrown:
  "providerClientsWithSettings (throwingHostEnv configurations) now pool threeProviders =
     (Failed (Error ''no token''), pool, [])"
  unfolding providerClientsWithSettings_def three_entries Let_def
  by (simp add: lookupAuthInfo_def throwingHostEnv_def)

lemma two_entries:
  "cfg_providers (resolveConfiguration twoProviders) =
     [(''https://a.example/p'', ''{}''), (''https://c.example/p'', ''{}'')]"
  by (simp add: resolveConfiguration_def gateConfiguration_def configurationFromUserInput_def
      twoProviders_def falsy_def)

text \<open>
  C7 fails when the credential hook throws. With three providers configured and a hook
  that throws for the second, \<^verbatim>\<open>providerClientsWithSettings\<close> fails with the hook's
  error: no client is obtained from the pool and nothing is logged. The stream of
  \<^verbatim>\<open>itemsChanges\<close> ends with that error without a value, also when a later
  configuration lists only the other two providers, no provider is called, and
  \<^verbatim>\<open>items\<close> rejects. With a hook that returns a failing stream for the second
  provider instead, the first and the third provider's clients are obtained from the
  pool and called, one message is handed to the facade's logger, and \<^verbatim>\<open>items\<close>
  resolves.
\<close>

theorem credential_hook_throw_aborts_stream:
  "providerClientsWithSettings (throwingHostEnv silent) 1000 createProviderPool threeProviders
     = (Failed (Error ''no token''), createProviderPool, []) \<and>
   itemsChanges stubRuntime
       (throwingHostEnv \<lparr>emitted = [(1000, threeProviders), (2000, twoProviders)], ending = Open\<rparr>)
       goFile True (createProviderPool, 0)
     = (\<lparr>emitted = [], ending = Errored (Error ''no token'')\<rparr>, (createProviderPool, 0), []) \<and>
   Client_items stubRuntime
       (throwingHostEnv \<lparr>emitted = [(1000, threeProviders), (2000, twoProviders)], ending = Open\<rparr>)
       goFile (createProviderPool, 0)
     = Rejected (Error ''no token'') \<and>
   fst (providerClientsWithSettings (hostEnv silent) 1000 createProviderPool threeProviders)
     = Next [(pooledClient 0 ''https://a.example/p'', ''{}''),
             (pooledClient 1 ''https://c.example/p'', ''{}'')] \<and>
   snd (snd (itemsChanges stubRuntime
       (hostEnv \<lparr>emitted = [(1000, threeProviders)], ending = Open\<rparr>)
       goFile True (createProviderPool, 0)))
     = [FacadeLog ''Error creating provider client for https://b.example/p: Error: no token'',
        ProviderEvent (pooledClient 0 ''https://a.example/p'') (TransportCall Items),
        ProviderEvent (pooledClient 1 ''https://c.example/p'') (TransportCall Items)] \<and>
   Client_items stubRuntime
       (hostEnv \<lparr>emitted = [(1000, threeProviders)], ending = Open\<rparr>)
       goFile (createProviderPool, 0)
     = Resolved []"
proof -
  have thrown: "providerClientsWithSettings (throwingHostEnv silent) 1000 createProviderPool
      threeProviders = (Failed (Error ''no token''), createProviderPool, [])"
    by (rule three_thrown)
  have stream: "itemsChanges stubRuntime
       (throwingHostEnv \<lparr>emitted = [(1000, threeProviders), (2000, twoProviders)], ending = Open\<rparr>)
       goFile emitPartial (createProviderPool, 0)
     = (\<lparr>emitted = [], ending = Errored (Error ''no token'')\<rparr>, (createProviderPool, 0), [])"
    for emitPartial
    by (simp add: itemsChanges_def changes_def cycle_def three_thrown
        throwingHostEnv_def[of "\<lparr>emitted = [(1000, threeProviders), (2000, twoProviders)], ending = Open\<rparr>", THEN arg_cong[where f=env_configuration]])
  have rejected: "Client_items stubRuntime
       (throwingHostEnv \<lparr>emitted = [(1000, threeProviders), (2000, twoProviders)], ending = Open\<rparr>)
       goFile (createProviderPool, 0)
     = Rejected (Error ''no token'')"
    by (simp add: Client_items_def stream firstValueFrom_def)
  have resolved: "fst (providerClientsWithSettings (hostEnv silent) 1000 createProviderPool
      threeProviders)
     = Next [(pooledClient 0 ''https://a.example/p'', ''{}''),
             (pooledClient 1 ''https://c.example/p'', ''{}'')]"
    by (simp add: three_resolved)
  have conf: "env_configuration (hostEnv \<lparr>emitted = [(1000, threeProviders)], ending = Open\<rparr>) resource
      = \<lparr>emitted = [(1000, threeProviders)], ending = Open\<rparr>" for resource
    by (simp add: hostEnv_def)
  have logger: "env_logger (hostEnv configurations) = True" for configurations
    by (simp add: hostEnv_def)
  have isolated: "itemsChanges stubRuntime
       (hostEnv \<lparr>emitted = [(1000, threeProviders)], ending = Open\<rparr>)
       goFile emitPartial (createProviderPool, 0)
     = (\<lparr>emitted = (if emitPartial then [[], []] else [[]]), ending = Open\<rparr>,
        (snd (getOrCreate (snd (getOrCreate createProviderPool 1000
              \<lparr>providerUri = ''https://a.example/p'', authInfo = None\<rparr>
              \<lparr>providerBaseUri_env = None, logger_env = True\<rparr>)) 1000
              \<lparr>providerUri = ''https://c.example/p'', authInfo = None\<rparr>
              \<lparr>providerBaseUri_env = None, logger_env = True\<rparr>), 0),
        [FacadeLog ''Error creating provider client for https://b.example/p: Error: no token'',
         ProviderEvent (pooledClient 0 ''https://a.example/p'') (TransportCall Items),
         ProviderEvent (pooledClient 1 ''https://c.example/p'') (TransportCall Items)])"
    for emitPartial
    by (simp add: itemsChanges_def changes_def conf cycle_def three_resolved observe_def stub_items
        failureLog_def contribution_def combinedEmissions_def filterNull_def logger)
  have items: "Client_items stubRuntime
       (hostEnv \<lparr>emitted = [(1000, threeProviders)], ending = Open\<rparr>)
       goFile (createProviderPool, 0)
     = Resolved []"
    by (simp add: Client_items_def isolated firstValueFrom_def)
  from thrown stream[of True] rejected resolved isolated[of True] items show ?thesis
    by simp
qed

section \<open>Properties of the configuration gate on the host's store\<close>

lemma gate_frame:
  assumes wf: "wellFormed st" and old: "objects st a \<noteq> None"
  shows "objects (snd (gateConfigurationObject st config)) a = objects st a"
proof -
  from wf old have "a < nextAddress st"
    by (auto simp: wellFormed_def not_le[symmetric])
  then show ?thesis
    by (auto simp: gateConfigurationObject_def Let_def split: option.splits jsObject.splits)
qed

lemma gate_read_old:
  assumes wf: "wellFormed st" and c: "readConfiguration st a = Some c"
  shows "readConfiguration (snd (gateConfigurationObject st config)) a = Some c"
proof -
  from c obtain en dbg prov where a: "objects st a = Some (ConfigObject en dbg prov)"
    by (auto simp: readConfiguration_def split: option.splits jsObject.splits)
  with wf have a': "objects (snd (gateConfigurationObject st config)) a = Some (ConfigObject en dbg prov)"
    by (simp add: gate_frame)
  show ?thesis
  proof (cases prov)
    case None
    with a a' c show ?thesis by (simp add: readConfiguration_def)
  next
    case (Some p)
    with a c obtain entries where p: "objects st p = Some (ProvidersObject entries)"
      by (auto simp: readConfiguration_def split: option.splits jsObject.splits)
    with wf have "objects (snd (gateConfigurationObject st config)) p = Some (ProvidersObject entries)"
      by (simp add: gate_frame)
    with Some a a' p c show ?thesis by (simp add: readConfiguration_def)
  qed
qed

lemma gate_copy:
  assumes wf: "wellFormed st" and host: "objects st config = Some (ConfigObject en dbg prov)"
    and off: "falsy en"
  shows "objects st (fst (gateConfigurationObject st config)) = None \<and>
         readConfiguration (snd (gateConfigurationObject st config))
             (fst (gateConfigurationObject st config))
           = Some \<lparr>enable = en, debug = dbg, providers = Some []\<rparr>"
  using assms
  by (simp add: gateConfigurationObject_def Let_def readConfiguration_def wellFormed_def)

lemma gate_value:
  assumes wf: "wellFormed st" and c: "readConfiguration st config = Some c"
  shows "readConfiguration (snd (gateConfigurationObject st config))
             (fst (gateConfigurationObject st config))
           = Some (gateConfiguration c)"
proof -
  from c obtain en dbg prov where host: "objects st config = Some (ConfigObject en dbg prov)"
    by (auto simp: readConfiguration_def split: option.splits jsObject.splits)
  with c have flags: "enable c = en" "debug c = dbg"
    by (auto simp: readConfiguration_def split: option.splits jsObject.splits)
  show ?thesis
  proof (cases "falsy en")
    case True
    have "c\<lparr>providers := Some []\<rparr> = \<lparr>enable = en, debug = dbg, providers = Some []\<rparr>"
      using flags by (cases c) simp
    with gate_copy[OF wf host True] flags True show ?thesis
      by (simp add: gateConfiguration_def)
  next
    case False
    with host c flags show ?thesis
      by (simp add: gateConfigurationObject_def gateConfiguration_def)
  qed
qed

text \<open>
  C10. The callback given to the first \<^verbatim>\<open>map\<close> in \<^verbatim>\<open>itemsChanges\<close> and
  \<^verbatim>\<open>annotationsChanges\<close> leaves every object that was in the store as it was: the
  configuration object the host emitted, and its \<^verbatim>\<open>providers\<close> object, read the
  same afterwards. When the \<^verbatim>\<open>enable\<close> flag of that object is falsy, the
  configuration that is resolved is a newly made object with the same \<^verbatim>\<open>enable\<close>
  and \<^verbatim>\<open>debug\<close> and an empty \<^verbatim>\<open>providers\<close> object; otherwise it is the host's
  object itself and the store is untouched. The configuration resolved is the one the
  facade's gate yields on the value of the host's object.
\<close>

theorem host_configuration_not_mutated:
  assumes wf: "wellFormed st"
    and host: "objects st config = Some (ConfigObject en dbg prov)"
  shows "(\<forall>a. objects st a \<noteq> None \<longrightarrow>
            objects (snd (resolveConfigurationObject st config)) a = objects st a) \<and>
         (\<forall>c. readConfiguration st config = Some c \<longrightarrow>
            readConfiguration (snd (resolveConfigurationObject st config)) config = Some c \<and>
            fst (resolveConfigurationObject st config) = Some (resolveConfiguration c)) \<and>
         (falsy en \<longrightarrow>
            objects st (fst (gateConfigurationObject st config)) = None \<and>
            readConfiguration (snd (gateConfigurationObject st config))
                (fst (gateConfigurationObject st config))
              = Some \<lparr>enable = en, debug = dbg, providers = Some []\<rparr>) \<and>
         (\<not> falsy en \<longrightarrow> gateConfigurationObject st config = (config, st))"
proof -
  have store: "snd (resolveConfigurationObject st config) = snd (gateConfigurationObject st config)"
    by (simp add: resolveConfigurationObject_def split: prod.splits)
  have result: "fst (resolveConfigurationObject st config) =
      map_option configurationFromUserInput
        (readConfiguration (snd (gateConfigurationObject st config))
           (fst (gateConfigurationObject st config)))"
    by (simp add: resolveConfigurationObject_def split: prod.splits)
  have "\<not> falsy en \<longrightarrow> gateConfigurationObject st config = (config, st)"
    using host by (simp add: gateConfigurationObject_def)
  with gate_frame[OF wf] gate_read_old[OF wf] gate_value[OF wf] gate_copy[OF wf host]
  show ?thesis
    by (simp add: store result resolveConfiguration_def)
qed

theorem host_configuration_not_mutated_witness:
  "objects (snd (resolveConfigurationObject hostStore 0)) 0 = objects hostStore 0 \<and>
   objects (snd (resolveConfigurationObject hostStore 0)) 1 = objects hostStore 1 \<and>
   readConfiguration (snd (resolveConfigurationObject hostStore 0)) 0
     = Some \<lparr>enable = Some False, debug = Some True,
             providers = Some [(''https://a.example/p'', Some ''{}'')]\<rparr> \<and>
   fst (gateConfigurationObject hostStore 0) = 2 \<and>
   readConfiguration (snd (gateConfigurationObject hostStore 0)) 2
     = Some \<lparr>enable = Some False, debug = Some True, providers = Some []\<rparr>"
proof -
  have wf: "wellFormed hostStore"
    by (simp add: wellFormed_def hostStore_def)
  have host: "objects hostStore 0 = Some (ConfigObject (Some False) (Some True) (Some 1))"
    by (simp add: hostStore_def)
  have old: "objects hostStore 0 \<noteq> None" "objects hostStore 1 \<noteq> None"
    by (simp_all add: hostStore_def)
  have read: "readConfiguration hostStore 0
     = Some \<lparr>enable = Some False, debug = Some True,
             providers = Some [(''https://a.example/p'', Some ''{}'')]\<rparr>"
    by (simp add: readConfiguration_def hostStore_def)
  have new: "fst (gateConfigurationObject hostStore 0) = 2"
    by (simp add: gateConfigurationObject_def hostStore_def falsy_def Let_def)
  have off: "falsy (Some False)" by (simp add: falsy_def)
  from host_configuration_not_mutated[OF wf host] old read new off show ?thesis
    by simp
qed

section \<open>Properties of the life cycle\<close>


















end
